theory Spec2Isabelle
  imports Main
begin

section \<open>JavaScript values that the server handles\<close>

text \<open>
  The Sheets API delivers every range as a JSON array of rows, each row a JSON array of
  scalars. A cell is therefore one of the JSON scalars. Numbers are modelled as
  integers (the example data of the specification uses years such as 2021); strings are
  sequences of 8-bit characters, with ASCII white space and ASCII case mapping.
  The JavaScript value \<open>undefined\<close> only arises from reading a missing array element or a
  missing property; it is the \<open>None\<close> of an option type.
\<close>

datatype cell = CNull | CBool bool | CNum int | CStr string

text \<open>Truthiness, as used by \<open>||\<close>, \<open>&&\<close>, \<open>!\<close> and \<open>if\<close>.\<close>

fun truthy :: "cell \<Rightarrow> bool" where
  "truthy CNull = False"
| "truthy (CBool b) = b"
| "truthy (CNum n) = (n \<noteq> 0)"
| "truthy (CStr s) = (s \<noteq> [])"

definition truthy_opt :: "cell option \<Rightarrow> bool" where
  "truthy_opt v = (case v of None \<Rightarrow> False | Some c \<Rightarrow> truthy c)"

text \<open>\<open>v != null\<close>: neither \<open>null\<close> nor \<open>undefined\<close>.\<close>

definition not_nullish :: "cell option \<Rightarrow> bool" where
  "not_nullish v = (case v of None \<Rightarrow> False | Some CNull \<Rightarrow> False | Some _ \<Rightarrow> True)"

text \<open>\<open>v ?? ""\<close>: the empty string replaces \<open>null\<close> and \<open>undefined\<close>.\<close>

definition or_empty :: "cell option \<Rightarrow> cell" where
  "or_empty v = (case v of None \<Rightarrow> CStr [] | Some CNull \<Rightarrow> CStr [] | Some c \<Rightarrow> c)"

text \<open>\<open>xs[i]\<close> on an array: \<open>undefined\<close> beyond the end.\<close>

definition elem_at :: "'a list \<Rightarrow> nat \<Rightarrow> 'a option" where
  "elem_at xs i = (if i < length xs then Some (xs ! i) else None)"

subsection \<open>Decimal rendering of numbers\<close>

definition digit :: "nat \<Rightarrow> char" where
  "digit d = ''0123456789'' ! d"

function string_of_nat :: "nat \<Rightarrow> string" where
  "string_of_nat n = (if n < 10 then [digit n] else string_of_nat (n div 10) @ [digit (n mod 10)])"
  by pat_completeness auto
termination
  by (relation "measure id") auto

declare string_of_nat.simps [simp del]

definition string_of_int :: "int \<Rightarrow> string" where
  "string_of_int n = (if n < 0 then CHR ''-'' # string_of_nat (nat (- n)) else string_of_nat (nat n))"

text \<open>\<open>String(v)\<close>, which is also what a template literal and a property key apply.\<close>

fun toString :: "cell \<Rightarrow> string" where
  "toString CNull = ''null''"
| "toString (CBool b) = (if b then ''true'' else ''false'')"
| "toString (CNum n) = string_of_int n"
| "toString (CStr s) = s"

subsection \<open>String methods\<close>

definition is_ws :: "char \<Rightarrow> bool" where
  "is_ws c = (c = CHR '' '' \<or> c = CHR 0x09 \<or> c = CHR 0x0A \<or> c = CHR 0x0B \<or> c = CHR 0x0C \<or> c = CHR 0x0D)"

definition trim :: "string \<Rightarrow> string" where
  "trim s = rev (dropWhile is_ws (rev (dropWhile is_ws s)))"

definition lower_char :: "char \<Rightarrow> char" where
  "lower_char c =
     (case map_of (zip ''ABCDEFGHIJKLMNOPQRSTUVWXYZ'' ''abcdefghijklmnopqrstuvwxyz'') c of
        Some d \<Rightarrow> d
      | None \<Rightarrow> c)"

definition toLowerCase :: "string \<Rightarrow> string" where
  "toLowerCase s = map lower_char s"

fun starts_with :: "string \<Rightarrow> string \<Rightarrow> bool" where
  "starts_with s [] = True"
| "starts_with [] (c # cs) = False"
| "starts_with (x # xs) (c # cs) = (x = c \<and> starts_with xs cs)"

text \<open>\<open>s.includes(sub)\<close>: \<open>sub\<close> occurs in \<open>s\<close> as a contiguous substring.\<close>

fun str_includes :: "string \<Rightarrow> string \<Rightarrow> bool" where
  "str_includes [] sub = (sub = [])"
| "str_includes (x # xs) sub = (starts_with (x # xs) sub \<or> str_includes xs sub)"

section \<open>Key column locator\<close>

text \<open>
  \<^verbatim>\<open>function isSchoolIdHeader(h) {
    const s = String(h || "").trim().toLowerCase();
    return s === "school id" || s === "schoolid" || (s.includes("school") && s.includes("id"));
  }
  function findSchoolIdIndex(headers) {
    for (let i = 0; i < headers.length; i++) if (isSchoolIdHeader(headers[i])) return i;
    return -1;
  }\<close>
\<close>

definition normalised :: "cell \<Rightarrow> string" where
  "normalised h = toLowerCase (trim (toString (if truthy h then h else CStr [])))"

definition isSchoolIdHeader :: "cell \<Rightarrow> bool" where
  "isSchoolIdHeader h =
     (let s = normalised h
      in s = ''school id'' \<or> s = ''schoolid'' \<or> (str_includes s ''school'' \<and> str_includes s ''id''))"

fun findFrom :: "nat \<Rightarrow> cell list \<Rightarrow> int" where
  "findFrom i [] = - 1"
| "findFrom i (h # hs) = (if isSchoolIdHeader h then int i else findFrom (Suc i) hs)"

definition findSchoolIdIndex :: "cell list \<Rightarrow> int" where
  "findSchoolIdIndex headers = findFrom 0 headers"

section \<open>Row materializer and header flattener\<close>

text \<open>
  A JavaScript object with string property names is a map from names to cells; the order
  of its properties is not modelled.
  \<^verbatim>\<open>function rowsToObjects(rows, headerRow = []) {
    return rows.map((r) => {
      const obj = {};
      for (let i = 0; i < headerRow.length; i++) {
        const key = headerRow[i] || `col_${i}`;
        obj[key] = r[i] ?? "";
      }
      return obj;
    });
  }\<close>
\<close>

type_synonym obj = "string \<rightharpoonup> cell"

definition col_placeholder :: "nat \<Rightarrow> string" where
  "col_placeholder i = ''col_'' @ string_of_nat i"

definition colKey :: "nat \<Rightarrow> cell \<Rightarrow> string" where
  "colKey i h = toString (if truthy h then h else CStr (col_placeholder i))"

fun fillObject :: "nat \<Rightarrow> cell list \<Rightarrow> cell list \<Rightarrow> obj \<Rightarrow> obj" where
  "fillObject i [] r ob = ob"
| "fillObject i (h # hs) r ob = fillObject (Suc i) hs r (ob(colKey i h \<mapsto> or_empty (elem_at r i)))"

definition rowsToObjects :: "cell list list \<Rightarrow> cell list \<Rightarrow> obj list" where
  "rowsToObjects rows headerRow = map (\<lambda>r. fillObject 0 headerRow r Map.empty) rows"

text \<open>
  \<^verbatim>\<open>function buildPerfFlatHeaders(h1, h2, h3) {
    const width = Math.max(h1.length, h2.length, h3.length);
    const headers = [];
    for (let i = 0; i < width; i++) {
      const cat = h1[i] ?? "";
      const field = h2[i] ?? "";
      const year = h3[i] ?? "";
      const label = `${cat} | ${field} | ${year}`.trim();
      headers.push(label.length ? label : `col_${i}`);
    }
    return headers;
  }\<close>
\<close>

definition perfLabel :: "cell list \<Rightarrow> cell list \<Rightarrow> cell list \<Rightarrow> nat \<Rightarrow> string" where
  "perfLabel h1 h2 h3 i =
     (let cat = or_empty (elem_at h1 i);
          field = or_empty (elem_at h2 i);
          year = or_empty (elem_at h3 i);
          label = trim (toString cat @ '' | '' @ toString field @ '' | '' @ toString year)
      in if length label \<noteq> 0 then label else col_placeholder i)"

definition buildPerfFlatHeaders :: "cell list \<Rightarrow> cell list \<Rightarrow> cell list \<Rightarrow> string list" where
  "buildPerfFlatHeaders h1 h2 h3 =
     (let width = max (length h1) (max (length h2) (length h3))
      in map (perfLabel h1 h2 h3) [0..<width])"

section \<open>Keyed index builder\<close>

text \<open>
  A JavaScript \<open>Map\<close> keeps its keys in insertion order; setting an existing key replaces
  the value and keeps the key's position. It is an association list with distinct keys.
  \<^verbatim>\<open>function toKeyedBySchoolId(objs, headerRow) {
    const idx = findSchoolIdIndex(headerRow);
    const map = new Map();
    if (idx < 0) return map;
    const keyName = headerRow[idx];
    for (const r of objs) {
      const id = r[keyName];
      if (id !== undefined && id !== "") map.set(String(id), r);
    }
    return map;
  }\<close>
\<close>

type_synonym keyed = "(string \<times> obj) list"

fun map_set :: "string \<Rightarrow> obj \<Rightarrow> keyed \<Rightarrow> keyed" where
  "map_set k v [] = [(k, v)]"
| "map_set k v ((k', v') # m) = (if k = k' then (k, v) # m else (k', v') # map_set k v m)"

definition map_get :: "keyed \<Rightarrow> string \<Rightarrow> obj option" where
  "map_get m k = map_of m k"

definition map_has :: "keyed \<Rightarrow> string \<Rightarrow> bool" where
  "map_has m k = (map_of m k \<noteq> None)"

definition map_keys :: "keyed \<Rightarrow> string list" where
  "map_keys m = map fst m"

text \<open>The body of the loop: the key under which a record is stored, if it is stored.\<close>

definition keyOf :: "string \<Rightarrow> obj \<Rightarrow> string option" where
  "keyOf keyName r =
     (case r keyName of
        None \<Rightarrow> None
      | Some v \<Rightarrow> if v = CStr [] then None else Some (toString v))"

definition addKeyed :: "string \<Rightarrow> keyed \<Rightarrow> obj \<Rightarrow> keyed" where
  "addKeyed keyName m r = (case keyOf keyName r of None \<Rightarrow> m | Some k \<Rightarrow> map_set k r m)"

definition toKeyedBySchoolId :: "obj list \<Rightarrow> cell list \<Rightarrow> keyed" where
  "toKeyedBySchoolId objs headerRow =
     (let idx = findSchoolIdIndex headerRow
      in if idx < 0 then []
         else let keyName = toString (headerRow ! nat idx)
              in foldl (addKeyed keyName) [] objs)"

section \<open>Join engine\<close>

text \<open>
  The merge of one key, the body of the loop that the inner join (in \<open>getJoinedFull\<close> and
  \<open>refreshAll\<close>) and the outer join (in the \<open>/api/schools\<close> route) share:
  \<^verbatim>\<open>const p = pMap.get(id) || {};
  const q = qMap.get(id) || {};
  const row = { ...p, ...q };
  if (!row["School ID"]) {
    if (schoolIdHeaderProfile && p[schoolIdHeaderProfile] != null) row["School ID"] = p[schoolIdHeaderProfile];
    else if (schoolIdHeaderPerf && q[schoolIdHeaderPerf] != null) row["School ID"] = q[schoolIdHeaderPerf];
    else row["School ID"] = id;
  }
  merged.push(row);\<close>
  The two header names come from \<open>headers.find(isSchoolIdHeader)\<close>, which is
  \<open>undefined\<close> when no header matches.
\<close>

definition get_or_empty :: "keyed \<Rightarrow> string \<Rightarrow> obj" where
  "get_or_empty m k = (case map_get m k of None \<Rightarrow> Map.empty | Some r \<Rightarrow> r)"

text \<open>\<open>h && r[h] != null\<close>, giving the value read when the test succeeds.\<close>

definition keyFieldValue :: "cell option \<Rightarrow> obj \<Rightarrow> cell option" where
  "keyFieldValue h r =
     (case h of
        None \<Rightarrow> None
      | Some c \<Rightarrow> if truthy c \<and> not_nullish (r (toString c)) then r (toString c) else None)"

definition mergeRow :: "cell option \<Rightarrow> cell option \<Rightarrow> obj \<Rightarrow> obj \<Rightarrow> string \<Rightarrow> obj" where
  "mergeRow hp hq p q ident =
     (let row = p ++ q
      in if \<not> truthy_opt (row ''School ID'') then
           (case keyFieldValue hp p of
              Some v \<Rightarrow> row(''School ID'' \<mapsto> v)
            | None \<Rightarrow>
               (case keyFieldValue hq q of
                  Some v \<Rightarrow> row(''School ID'' \<mapsto> v)
                | None \<Rightarrow> row(''School ID'' \<mapsto> CStr ident)))
         else row)"

definition mergeIds :: "cell option \<Rightarrow> cell option \<Rightarrow> keyed \<Rightarrow> keyed \<Rightarrow> string list \<Rightarrow> obj list" where
  "mergeIds hp hq pMap qMap ids =
     map (\<lambda>ident. mergeRow hp hq (get_or_empty pMap ident) (get_or_empty qMap ident) ident) ids"

text \<open>\<open>[...pMap.keys()].filter((id) => qMap.has(id))\<close>\<close>

definition innerIds :: "keyed \<Rightarrow> keyed \<Rightarrow> string list" where
  "innerIds pMap qMap = filter (map_has qMap) (map_keys pMap)"

text \<open>
  \<open>new Set([...pMap.keys(), ...qMap.keys()])\<close>: a \<open>Set\<close> iterates in insertion order and
  adding a member again changes nothing.
\<close>

definition set_add :: "string list \<Rightarrow> string \<Rightarrow> string list" where
  "set_add s x = (if x \<in> set s then s else s @ [x])"

definition new_Set :: "string list \<Rightarrow> string list" where
  "new_Set xs = foldl set_add [] xs"

definition allIds :: "keyed \<Rightarrow> keyed \<Rightarrow> string list" where
  "allIds pMap qMap = new_Set (map_keys pMap @ map_keys qMap)"

record dataset =
  headers :: "cell list"
  rows :: "cell list list"
  data :: "obj list"

record join_result =
  count :: nat
  merged :: "obj list"

text \<open>The inner join of \<open>getJoinedFull\<close> and \<open>refreshAll\<close>, from the two datasets.\<close>

definition innerJoin :: "dataset \<Rightarrow> dataset \<Rightarrow> join_result" where
  "innerJoin profile perf =
     (let pMap = toKeyedBySchoolId (data profile) (headers profile);
          qMap = toKeyedBySchoolId (data perf) (headers perf);
          schoolIdHeaderProfile = find isSchoolIdHeader (headers profile);
          schoolIdHeaderPerf = find isSchoolIdHeader (headers perf);
          ids = innerIds pMap qMap;
          out = mergeIds schoolIdHeaderProfile schoolIdHeaderPerf pMap qMap ids
      in \<lparr>count = length out, merged = out\<rparr>)"

text \<open>The outer join of the \<open>/api/schools\<close> route (\<open>onlyMatched=false\<close>).\<close>

definition outerJoin :: "dataset \<Rightarrow> dataset \<Rightarrow> join_result" where
  "outerJoin profile perf =
     (let pMap = toKeyedBySchoolId (data profile) (headers profile);
          qMap = toKeyedBySchoolId (data perf) (headers perf);
          ids = allIds pMap qMap;
          schoolIdHeaderProfile = find isSchoolIdHeader (headers profile);
          schoolIdHeaderPerf = find isSchoolIdHeader (headers perf);
          out = mergeIds schoolIdHeaderProfile schoolIdHeaderPerf pMap qMap ids
      in \<lparr>count = length out, merged = out\<rparr>)"

section \<open>Upstream source and counters\<close>

text \<open>
  Instants are milliseconds since the epoch (\<open>Date.now()\<close>); \<open>toISOString\<close> renders such
  an instant as a non-empty string, so a stored time stamp is always truthy. One
  operation reads the clock as one instant \<open>now\<close>.
\<close>

type_synonym timestamp = nat

record stats =
  totalRequests :: nat
  cacheHits :: nat
  cacheMisses :: nat
  apiCalls :: nat
  errors :: nat
  lastApiCall :: "timestamp option"

datatype error = Error string

text \<open>
  What the process is configured with and what the Sheets API answers: the environment
  variables, the outcome of \<open>auth.authorize()\<close>, and for each range either the error
  that \<open>spreadsheets.values.get\<close> rejects with or \<open>res.data.values\<close> (absent for a range
  without data).
\<close>

record upstream =
  spreadsheet_id :: string
  service_account :: bool
  authorize :: "error option"
  api_key :: string
  values_get :: "string \<Rightarrow> error + cell list list option"

datatype api_mode = Service | ApiKey

text \<open>
  \<^verbatim>\<open>async function getSheetsClient() {
    if (!SPREADSHEET_ID) throw new Error("SPREADSHEET_ID env var is required.");
    if (SERVICE_ACCOUNT_KEY?.client_email && SERVICE_ACCOUNT_KEY?.private_key) {
      ...
      await auth.authorize();
      API_MODE = "service";
      return google.sheets({ version: "v4", auth });
    }
    if (!API_KEY) throw new Error("Either GOOGLE_SERVICE_ACCOUNT_KEY or GOOGLE_API_KEY must be set");
    API_MODE = "apikey";
    return google.sheets({ version: "v4" });
  }\<close>
\<close>

definition getSheetsClient :: "upstream \<Rightarrow> error + api_mode" where
  "getSheetsClient up =
     (if spreadsheet_id up = [] then Inl (Error ''SPREADSHEET_ID env var is required.'')
      else if service_account up then
        (case authorize up of Some e \<Rightarrow> Inl e | None \<Rightarrow> Inr Service)
      else if api_key up = [] then
        Inl (Error ''Either GOOGLE_SERVICE_ACCOUNT_KEY or GOOGLE_API_KEY must be set'')
      else Inr ApiKey)"

text \<open>
  \<^verbatim>\<open>async function getSheetValues(sheets, range) {
    increment("apiCalls");
    stats.lastApiCall = new Date().toISOString();
    ...
    const res = await sheets.spreadsheets.values.get(params);
    return res.data.values || [];
  }\<close>
  The counters are updated before the request, so they change also when it fails.
\<close>

definition values_or_empty :: "cell list list option \<Rightarrow> cell list list" where
  "values_or_empty v = (case v of None \<Rightarrow> [] | Some vs \<Rightarrow> vs)"

definition getSheetValues ::
  "upstream \<Rightarrow> timestamp \<Rightarrow> string \<Rightarrow> stats \<Rightarrow> (error + cell list list) \<times> stats" where
  "getSheetValues up now rng st =
     (let st' = st\<lparr>apiCalls := apiCalls st + 1, lastApiCall := Some now\<rparr>
      in (case values_get up rng of
            Inl e \<Rightarrow> Inl e
          | Inr v \<Rightarrow> Inr (values_or_empty v), st'))"

definition PROFILE_RANGE :: string where
  "PROFILE_RANGE = ''School Profile!A:AI''"

definition PERF_HEADERS_RANGE :: string where
  "PERF_HEADERS_RANGE = ''School Performance!1:3''"

definition PERF_DATA_RANGE :: string where
  "PERF_DATA_RANGE = ''School Performance!4:100000''"

text \<open>\<open>headerRows[k] || []\<close>\<close>

definition row_or_empty :: "cell list list \<Rightarrow> nat \<Rightarrow> cell list" where
  "row_or_empty vs k = (case elem_at vs k of None \<Rightarrow> [] | Some r \<Rightarrow> r)"

section \<open>Process state\<close>

text \<open>
  The snapshot, the file it is persisted in, and the TTL cache of the variant without a
  snapshot. A cache entry carries the instant at which it expires.
\<close>

record snapshot =
  profile :: "dataset option"
  performance :: "dataset option"
  joinedMatched :: "join_result option"
  lastUpdated :: "timestamp option"
  lastReason :: "string option"

record stats_doc =
  doc_apiCalls :: nat
  doc_totalRequests :: nat
  doc_cacheHits :: nat
  doc_cacheMisses :: nat
  doc_lastApiCall :: "timestamp option"

text \<open>
  The document that \<open>JSON.stringify(snapshotToSerializable())\<close> writes and \<open>JSON.parse\<close>
  reads back. All values in it are JSON scalars, arrays and plain objects, on which
  \<open>JSON.parse\<close> inverts \<open>JSON.stringify\<close>; a file holds either such a document or content
  on which the \<open>try\<close> block of \<open>loadSnapshotFromDisk\<close> throws.
\<close>

record document =
  doc_snapshot :: snapshot
  doc_stats :: "stats_doc option"

datatype file_content = Unparsable error | Document document

record server =
  SNAPSHOT :: snapshot
  STATS :: stats
  disk :: "string \<rightharpoonup> file_content"
  cache :: "string \<rightharpoonup> dataset \<times> timestamp"

section \<open>Cached fetchers (TTL variant)\<close>

text \<open>
  \<open>new NodeCache({ stdTTL: 60 })\<close>: \<open>set\<close> stores the value with the expiry instant
  \<open>now + 60 s\<close>; \<open>get\<close> returns the value unless the expiry instant lies before \<open>now\<close>, and
  \<open>undefined\<close> otherwise. The two accessors that read the upstream source themselves,
  \<open>getProfile\<close> and \<open>getPerformanceFull\<close>, are modelled.
\<close>

definition stdTTL_ms :: nat where
  "stdTTL_ms = 60 * 1000"

definition cache_get :: "(string \<rightharpoonup> dataset \<times> timestamp) \<Rightarrow> timestamp \<Rightarrow> string \<Rightarrow> dataset option" where
  "cache_get c now k =
     (case c k of None \<Rightarrow> None | Some (v, expiry) \<Rightarrow> if expiry < now then None else Some v)"

definition cache_set ::
  "(string \<rightharpoonup> dataset \<times> timestamp) \<Rightarrow> timestamp \<Rightarrow> string \<Rightarrow> dataset \<Rightarrow> (string \<rightharpoonup> dataset \<times> timestamp)" where
  "cache_set c now k v = c(k \<mapsto> (v, now + stdTTL_ms))"

definition count_request :: "server \<Rightarrow> server" where
  "count_request s = s\<lparr>STATS := (STATS s)\<lparr>totalRequests := totalRequests (STATS s) + 1\<rparr>\<rparr>"

definition count_hit :: "server \<Rightarrow> server" where
  "count_hit s = s\<lparr>STATS := (STATS s)\<lparr>cacheHits := cacheHits (STATS s) + 1\<rparr>\<rparr>"

definition count_miss :: "server \<Rightarrow> server" where
  "count_miss s = s\<lparr>STATS := (STATS s)\<lparr>cacheMisses := cacheMisses (STATS s) + 1\<rparr>\<rparr>"

text \<open>
  \<^verbatim>\<open>async function getProfile() {
    const cacheKey = "profile_full";
    stats.totalRequests++;
    const cached = cache.get(cacheKey);
    if (cached) { stats.cacheHits++; return cached; }
    stats.cacheMisses++;

    const sheets = await getSheetsClient();
    const values = await getSheetValues(sheets, PROFILE_RANGE);
    if (!values.length) return { headers: [], rows: [], data: [] };

    const header = values[0];
    const dataRows = values.slice(1);
    const data = rowsToObjects(dataRows, header);

    const result = { headers: header, rows: dataRows, data };
    cache.set(cacheKey, result);
    return result;
  }\<close>
\<close>

definition getProfile :: "upstream \<Rightarrow> timestamp \<Rightarrow> server \<Rightarrow> (error + dataset) \<times> server" where
  "getProfile up now s0 =
     (let cacheKey = ''profile_full'';
          s1 = count_request s0
      in case cache_get (cache s1) now cacheKey of
           Some cached \<Rightarrow> (Inr cached, count_hit s1)
         | None \<Rightarrow>
            (let s2 = count_miss s1
             in case getSheetsClient up of
                  Inl e \<Rightarrow> (Inl e, s2)
                | Inr sheets \<Rightarrow>
                   (case getSheetValues up now PROFILE_RANGE (STATS s2) of
                      (Inl e, st) \<Rightarrow> (Inl e, s2\<lparr>STATS := st\<rparr>)
                    | (Inr values, st) \<Rightarrow>
                       (let s3 = s2\<lparr>STATS := st\<rparr>
                        in if length values = 0 then (Inr \<lparr>headers = [], rows = [], data = []\<rparr>, s3)
                           else
                             (let header = hd values;
                                  dataRows = tl values;
                                  result = \<lparr>headers = header, rows = dataRows,
                                            data = rowsToObjects dataRows header\<rparr>
                              in (Inr result, s3\<lparr>cache := cache_set (cache s3) now cacheKey result\<rparr>))))))"

text \<open>
  \<^verbatim>\<open>async function getPerformanceFull() {
    const cacheKey = "performance_full";
    stats.totalRequests++;
    const cached = cache.get(cacheKey);
    if (cached) { stats.cacheHits++; return cached; }
    stats.cacheMisses++;

    const sheets = await getSheetsClient();
    const headerRows = await getSheetValues(sheets, PERF_HEADERS_RANGE); // rows 1-3
    const dataRows = await getSheetValues(sheets, PERF_DATA_RANGE);      // row 4+

    const h1 = headerRows[0] || [];
    const h2 = headerRows[1] || [];
    const h3 = headerRows[2] || [];
    const flatHeaders = buildPerfFlatHeaders(h1, h2, h3);

    const data = rowsToObjects(dataRows, flatHeaders);
    const result = { headers: flatHeaders, rows: dataRows, data };
    cache.set(cacheKey, result);
    return result;
  }\<close>
\<close>

definition perfDataset :: "cell list list \<Rightarrow> cell list list \<Rightarrow> dataset" where
  "perfDataset headerRows dataRows =
     (let h1 = row_or_empty headerRows 0;
          h2 = row_or_empty headerRows 1;
          h3 = row_or_empty headerRows 2;
          flatHeaders = map CStr (buildPerfFlatHeaders h1 h2 h3)
      in \<lparr>headers = flatHeaders, rows = dataRows, data = rowsToObjects dataRows flatHeaders\<rparr>)"

definition getPerformanceFull :: "upstream \<Rightarrow> timestamp \<Rightarrow> server \<Rightarrow> (error + dataset) \<times> server" where
  "getPerformanceFull up now s0 =
     (let cacheKey = ''performance_full'';
          s1 = count_request s0
      in case cache_get (cache s1) now cacheKey of
           Some cached \<Rightarrow> (Inr cached, count_hit s1)
         | None \<Rightarrow>
            (let s2 = count_miss s1
             in case getSheetsClient up of
                  Inl e \<Rightarrow> (Inl e, s2)
                | Inr sheets \<Rightarrow>
                   (case getSheetValues up now PERF_HEADERS_RANGE (STATS s2) of
                      (Inl e, st) \<Rightarrow> (Inl e, s2\<lparr>STATS := st\<rparr>)
                    | (Inr headerRows, st) \<Rightarrow>
                       (case getSheetValues up now PERF_DATA_RANGE st of
                          (Inl e, st') \<Rightarrow> (Inl e, s2\<lparr>STATS := st'\<rparr>)
                        | (Inr dataRows, st') \<Rightarrow>
                           (let s3 = s2\<lparr>STATS := st'\<rparr>;
                                result = perfDataset headerRows dataRows
                            in (Inr result, s3\<lparr>cache := cache_set (cache s3) now cacheKey result\<rparr>))))))"

section \<open>Snapshot persistence\<close>

text \<open>
  The file system is a map from paths to contents. The faults a call can meet are given
  with the call: the error \<open>writeFileSync\<close>, \<open>renameSync\<close> or \<open>readFileSync\<close> throws, if
  any. A failed write is taken to leave the disk as it was.
  \<^verbatim>\<open>function snapshotToSerializable() {
    return {
      profile: SNAPSHOT.profile,
      performance: SNAPSHOT.performance,
      joinedMatched: SNAPSHOT.joinedMatched,
      lastUpdated: SNAPSHOT.lastUpdated,
      lastReason: SNAPSHOT.lastReason,
      stats: {
        apiCalls: stats.apiCalls,
        totalRequests: stats.totalRequests,
        cacheHits: stats.cacheHits,
        cacheMisses: stats.cacheMisses,
        lastApiCall: stats.lastApiCall,
      },
    };
  }
  function saveSnapshotToDisk() {
    try {
      const tmp = SNAPSHOT_FILE + ".tmp";
      fs.writeFileSync(tmp, JSON.stringify(snapshotToSerializable()), "utf8");
      fs.renameSync(tmp, SNAPSHOT_FILE); // atomic-ish replace
      return { ok: true, file: SNAPSHOT_FILE };
    } catch (e) {
      return { ok: false, error: e?.message || String(e) };
    }
  }\<close>
\<close>

record disk_io =
  write_error :: "error option"
  rename_error :: "error option"
  read_error :: "error option"

definition snapshotToSerializable :: "server \<Rightarrow> document" where
  "snapshotToSerializable s =
     \<lparr>doc_snapshot = SNAPSHOT s,
      doc_stats = Some \<lparr>doc_apiCalls = apiCalls (STATS s),
                        doc_totalRequests = totalRequests (STATS s),
                        doc_cacheHits = cacheHits (STATS s),
                        doc_cacheMisses = cacheMisses (STATS s),
                        doc_lastApiCall = lastApiCall (STATS s)\<rparr>\<rparr>"

definition saveSnapshotToDisk :: "string \<Rightarrow> disk_io \<Rightarrow> server \<Rightarrow> (error + string) \<times> server" where
  "saveSnapshotToDisk SNAPSHOT_FILE io s =
     (let tmp = SNAPSHOT_FILE @ ''.tmp''
      in case write_error io of
           Some e \<Rightarrow> (Inl e, s)
         | None \<Rightarrow>
            (let d1 = (disk s)(tmp \<mapsto> Document (snapshotToSerializable s))
             in case rename_error io of
                  Some e \<Rightarrow> (Inl e, s\<lparr>disk := d1\<rparr>)
                | None \<Rightarrow> (Inr SNAPSHOT_FILE, s\<lparr>disk := (d1(SNAPSHOT_FILE := d1 tmp))(tmp := None)\<rparr>)))"

text \<open>
  \<^verbatim>\<open>function loadSnapshotFromDisk() {
    try {
      if (!fs.existsSync(SNAPSHOT_FILE)) return { ok: false, error: "file not found" };
      const raw = fs.readFileSync(SNAPSHOT_FILE, "utf8");
      const j = JSON.parse(raw);
      SNAPSHOT.profile = j.profile || null;
      SNAPSHOT.performance = j.performance || null;
      SNAPSHOT.joinedMatched = j.joinedMatched || null;
      SNAPSHOT.lastUpdated = j.lastUpdated || null;
      SNAPSHOT.lastReason = j.lastReason || null;
      if (j.stats) Object.assign(stats, j.stats);
      return { ok: true, file: SNAPSHOT_FILE };
    } catch (e) {
      return { ok: false, error: e?.message || String(e) };
    }
  }\<close>
  \<open>v || null\<close> keeps a truthy value and turns every other one into \<open>null\<close>. Objects and
  time stamps are truthy; a string is truthy unless it is empty.
\<close>

definition or_null :: "('a \<Rightarrow> bool) \<Rightarrow> 'a option \<Rightarrow> 'a option" where
  "or_null is_truthy v = (case v of None \<Rightarrow> None | Some x \<Rightarrow> if is_truthy x then Some x else None)"

definition assign_stats :: "stats \<Rightarrow> stats_doc \<Rightarrow> stats" where
  "assign_stats st d =
     st\<lparr>apiCalls := doc_apiCalls d,
        totalRequests := doc_totalRequests d,
        cacheHits := doc_cacheHits d,
        cacheMisses := doc_cacheMisses d,
        lastApiCall := doc_lastApiCall d\<rparr>"

definition loadSnapshotFromDisk :: "string \<Rightarrow> disk_io \<Rightarrow> server \<Rightarrow> (error + string) \<times> server" where
  "loadSnapshotFromDisk SNAPSHOT_FILE io s =
     (case disk s SNAPSHOT_FILE of
        None \<Rightarrow> (Inl (Error ''file not found''), s)
      | Some content \<Rightarrow>
         (case read_error io of
            Some e \<Rightarrow> (Inl e, s)
          | None \<Rightarrow>
             (case content of
                Unparsable e \<Rightarrow> (Inl e, s)
              | Document j \<Rightarrow>
                 (Inr SNAPSHOT_FILE,
                  s\<lparr>SNAPSHOT :=
                       \<lparr>profile = or_null (\<lambda>_. True) (profile (doc_snapshot j)),
                        performance = or_null (\<lambda>_. True) (performance (doc_snapshot j)),
                        joinedMatched = or_null (\<lambda>_. True) (joinedMatched (doc_snapshot j)),
                        lastUpdated = or_null (\<lambda>_. True) (lastUpdated (doc_snapshot j)),
                        lastReason = or_null (\<lambda>r. r \<noteq> []) (lastReason (doc_snapshot j))\<rparr>,
                    STATS := (case doc_stats j of
                                None \<Rightarrow> STATS s
                              | Some d \<Rightarrow> assign_stats (STATS s) d)\<rparr>))))"

text \<open>\<open>snapshotFileInfo().exists\<close>\<close>

definition snapshotFileInfo :: "string \<Rightarrow> server \<Rightarrow> bool" where
  "snapshotFileInfo SNAPSHOT_FILE s = (disk s SNAPSHOT_FILE \<noteq> None)"

section \<open>Manual refresh\<close>

text \<open>
  \<^verbatim>\<open>async function refreshAll(reason = "manual") {
    const started = Date.now();
    const sheets = await getSheetsClient();

    // Profile
    const values = await getSheetValues(sheets, PROFILE_RANGE);
    const header = values[0] || [];
    const dataRows = (values.length > 1) ? values.slice(1) : [];
    const profile = { headers: header, rows: dataRows, data: rowsToObjects(dataRows, header) };

    // Performance
    const headerRows = await getSheetValues(sheets, PERF_HEADERS_RANGE);
    const perfRows = await getSheetValues(sheets, PERF_DATA_RANGE);
    const h1 = headerRows[0] || [];
    const h2 = headerRows[1] || [];
    const h3 = headerRows[2] || [];
    const flat = buildPerfFlatHeaders(h1, h2, h3);
    const performance = { headers: flat, rows: perfRows, data: rowsToObjects(perfRows, flat) };

    // Joined (inner)
    ... (the inner join above)

    // Commit snapshot atomically
    SNAPSHOT.profile = profile;
    SNAPSHOT.performance = performance;
    SNAPSHOT.joinedMatched = { count: merged.length, data: merged };
    SNAPSHOT.lastUpdated = new Date().toISOString();
    SNAPSHOT.lastReason = reason;

    // Save snapshot to disk
    const saveRes = saveSnapshotToDisk();

    const finished = Date.now();
    return { ok: true, lastUpdated: SNAPSHOT.lastUpdated, lastReason: reason,
             durationMs: finished - started, counts: {...},
             snapshotFile: snapshotFileInfo(), saveResult: saveRes };
  }\<close>
  A rejected \<open>await\<close> throws out of the function: the model returns the error with the
  state reached so far. The duration is left out of the result. One execution is
  modelled on its own: what other requests do to the state while an \<open>await\<close> is pending
  is not part of it.
\<close>

record refresh_counts =
  profileHeaders :: nat
  profileRows :: nat
  performanceHeaders :: nat
  performanceRows :: nat
  joinedRows :: nat

record refresh_meta =
  meta_lastUpdated :: "timestamp option"
  meta_lastReason :: string
  counts :: refresh_counts
  snapshotFile :: bool
  saveResult :: "error + string"

definition profileDataset :: "cell list list \<Rightarrow> dataset" where
  "profileDataset values =
     (let header = row_or_empty values 0;
          dataRows = (if length values > 1 then tl values else [])
      in \<lparr>headers = header, rows = dataRows, data = rowsToObjects dataRows header\<rparr>)"

definition commitAndSave ::
  "string \<Rightarrow> disk_io \<Rightarrow> timestamp \<Rightarrow> string \<Rightarrow> dataset \<Rightarrow> dataset \<Rightarrow> server \<Rightarrow> refresh_meta \<times> server" where
  "commitAndSave SNAPSHOT_FILE io now reason prof perf s =
     (let joined = innerJoin prof perf;
          s1 = s\<lparr>SNAPSHOT := \<lparr>profile = Some prof,
                               performance = Some perf,
                               joinedMatched = Some joined,
                               lastUpdated = Some now,
                               lastReason = Some reason\<rparr>\<rparr>;
          (saveRes, s2) = saveSnapshotToDisk SNAPSHOT_FILE io s1
      in (\<lparr>meta_lastUpdated = lastUpdated (SNAPSHOT s2),
           meta_lastReason = reason,
           counts = \<lparr>profileHeaders = length (headers prof),
                     profileRows = length (data prof),
                     performanceHeaders = length (headers perf),
                     performanceRows = length (data perf),
                     joinedRows = length (merged joined)\<rparr>,
           snapshotFile = snapshotFileInfo SNAPSHOT_FILE s2,
           saveResult = saveRes\<rparr>, s2))"

definition refreshAll ::
  "upstream \<Rightarrow> string \<Rightarrow> disk_io \<Rightarrow> timestamp \<Rightarrow> string \<Rightarrow> server \<Rightarrow> (error + refresh_meta) \<times> server" where
  "refreshAll up SNAPSHOT_FILE io now reason s =
     (case getSheetsClient up of
        Inl e \<Rightarrow> (Inl e, s)
      | Inr sheets \<Rightarrow>
         (case getSheetValues up now PROFILE_RANGE (STATS s) of
            (Inl e, st1) \<Rightarrow> (Inl e, s\<lparr>STATS := st1\<rparr>)
          | (Inr values, st1) \<Rightarrow>
             (case getSheetValues up now PERF_HEADERS_RANGE st1 of
                (Inl e, st2) \<Rightarrow> (Inl e, s\<lparr>STATS := st2\<rparr>)
              | (Inr headerRows, st2) \<Rightarrow>
                 (case getSheetValues up now PERF_DATA_RANGE st2 of
                    (Inl e, st3) \<Rightarrow> (Inl e, s\<lparr>STATS := st3\<rparr>)
                  | (Inr perfRows, st3) \<Rightarrow>
                     (case commitAndSave SNAPSHOT_FILE io now reason
                             (profileDataset values) (perfDataset headerRows perfRows)
                             (s\<lparr>STATS := st3\<rparr>) of
                        (meta, s') \<Rightarrow> (Inr meta, s'))))))"

section \<open>Getters of the snapshot variant and the states the server reaches\<close>

text \<open>
  In the variant with a snapshot the getters have the names of the cached fetchers
  above; here they carry the suffix \<open>_snapshot\<close>.
  \<^verbatim>\<open>async function getProfile() {
    stats.totalRequests++;
    if (SNAPSHOT.profile) { stats.cacheHits++; return SNAPSHOT.profile; }
    stats.cacheMisses++;

    const sheets = await getSheetsClient();
    const values = await getSheetValues(sheets, PROFILE_RANGE);
    if (!values.length) return { headers: [], rows: [], data: [] };

    const header = values[0];
    const dataRows = values.slice(1);
    const data = rowsToObjects(dataRows, header);
    const result = { headers: header, rows: dataRows, data };
    SNAPSHOT.profile = result;
    return result;
  }\<close>
\<close>

definition getProfile_snapshot :: "upstream \<Rightarrow> timestamp \<Rightarrow> server \<Rightarrow> (error + dataset) \<times> server" where
  "getProfile_snapshot up now s0 =
     (let s1 = count_request s0
      in case profile (SNAPSHOT s1) of
           Some stored \<Rightarrow> (Inr stored, count_hit s1)
         | None \<Rightarrow>
            (let s2 = count_miss s1
             in case getSheetsClient up of
                  Inl e \<Rightarrow> (Inl e, s2)
                | Inr sheets \<Rightarrow>
                   (case getSheetValues up now PROFILE_RANGE (STATS s2) of
                      (Inl e, st) \<Rightarrow> (Inl e, s2\<lparr>STATS := st\<rparr>)
                    | (Inr values, st) \<Rightarrow>
                       (let s3 = s2\<lparr>STATS := st\<rparr>
                        in if length values = 0 then (Inr \<lparr>headers = [], rows = [], data = []\<rparr>, s3)
                           else
                             (let header = hd values;
                                  dataRows = tl values;
                                  result = \<lparr>headers = header, rows = dataRows,
                                            data = rowsToObjects dataRows header\<rparr>
                              in (Inr result, s3\<lparr>SNAPSHOT := (SNAPSHOT s3)\<lparr>profile := Some result\<rparr>\<rparr>))))))"

text \<open>
  \<^verbatim>\<open>async function getPerformanceFull() {
    stats.totalRequests++;
    if (SNAPSHOT.performance) { stats.cacheHits++; return SNAPSHOT.performance; }
    stats.cacheMisses++;

    const sheets = await getSheetsClient();
    const headerRows = await getSheetValues(sheets, PERF_HEADERS_RANGE); // rows 1-3
    const dataRows = await getSheetValues(sheets, PERF_DATA_RANGE);      // row 4+
    ...
    const result = { headers: flatHeaders, rows: dataRows, data };
    SNAPSHOT.performance = result;
    return result;
  }\<close>
\<close>

definition getPerformanceFull_snapshot ::
  "upstream \<Rightarrow> timestamp \<Rightarrow> server \<Rightarrow> (error + dataset) \<times> server" where
  "getPerformanceFull_snapshot up now s0 =
     (let s1 = count_request s0
      in case performance (SNAPSHOT s1) of
           Some stored \<Rightarrow> (Inr stored, count_hit s1)
         | None \<Rightarrow>
            (let s2 = count_miss s1
             in case getSheetsClient up of
                  Inl e \<Rightarrow> (Inl e, s2)
                | Inr sheets \<Rightarrow>
                   (case getSheetValues up now PERF_HEADERS_RANGE (STATS s2) of
                      (Inl e, st) \<Rightarrow> (Inl e, s2\<lparr>STATS := st\<rparr>)
                    | (Inr headerRows, st) \<Rightarrow>
                       (case getSheetValues up now PERF_DATA_RANGE st of
                          (Inl e, st') \<Rightarrow> (Inl e, s2\<lparr>STATS := st'\<rparr>)
                        | (Inr dataRows, st') \<Rightarrow>
                           (let s3 = s2\<lparr>STATS := st'\<rparr>;
                                result = perfDataset headerRows dataRows
                            in (Inr result,
                                s3\<lparr>SNAPSHOT := (SNAPSHOT s3)\<lparr>performance := Some result\<rparr>\<rparr>))))))"

text \<open>
  \<^verbatim>\<open>async function getJoinedFull() {
    stats.totalRequests++;
    if (SNAPSHOT.joinedMatched) { stats.cacheHits++; return SNAPSHOT.joinedMatched; }
    stats.cacheMisses++;

    const [profile, perf] = await Promise.all([getProfile(), getPerformanceFull()]);
    ... (the inner join above)
    const result = { count: merged.length, data: merged };
    SNAPSHOT.joinedMatched = result;
    return result;
  }\<close>
  \<open>Promise.all\<close> starts both getters, and both run to their end also when one of them is
  rejected. The state given is the one after both have ended; of two errors the model
  reports that of \<open>getProfile\<close>.
\<close>

definition getJoinedFull_snapshot ::
  "upstream \<Rightarrow> timestamp \<Rightarrow> server \<Rightarrow> (error + join_result) \<times> server" where
  "getJoinedFull_snapshot up now s0 =
     (let s1 = count_request s0
      in case joinedMatched (SNAPSHOT s1) of
           Some stored \<Rightarrow> (Inr stored, count_hit s1)
         | None \<Rightarrow>
            (let s2 = count_miss s1
             in case getProfile_snapshot up now s2 of
                  (r1, s3) \<Rightarrow>
                   (case getPerformanceFull_snapshot up now s3 of
                      (r2, s4) \<Rightarrow>
                       (case r1 of
                          Inl e \<Rightarrow> (Inl e, s4)
                        | Inr prof \<Rightarrow>
                           (case r2 of
                              Inl e \<Rightarrow> (Inl e, s4)
                            | Inr perf \<Rightarrow>
                               (let result = innerJoin prof perf
                                in (Inr result,
                                    s4\<lparr>SNAPSHOT := (SNAPSHOT s4)\<lparr>joinedMatched := Some result\<rparr>\<rparr>)))))))"

text \<open>\<open>increment("errors")\<close>, in the \<open>catch\<close> of every route.\<close>

definition count_error :: "server \<Rightarrow> server" where
  "count_error s = s\<lparr>STATS := (STATS s)\<lparr>errors := errors (STATS s) + 1\<rparr>\<rparr>"

text \<open>
  The states of the process. It starts with an empty snapshot, whatever the disk
  holds. \<open>refreshAll\<close> has two callers: the route \<open>/admin/refresh\<close>, with the reason
  \<open>manual_endpoint\<close>, and the start of the server, with the reason \<open>startup\<close>. The routes
  \<open>/admin/save\<close> and \<open>/admin/load\<close> and the start of the server save and load; the data
  routes call the three getters; a failed request counts an error. The file system can
  be changed from outside the process. The upstream source, the clock and the faults of
  the disk are free at every step.
\<close>

inductive reachable :: "server \<Rightarrow> bool" where
  start:
    "reachable \<lparr>SNAPSHOT = \<lparr>profile = None, performance = None, joinedMatched = None,
                              lastUpdated = None, lastReason = None\<rparr>,
                 STATS = \<lparr>totalRequests = 0, cacheHits = 0, cacheMisses = 0, apiCalls = 0,
                          errors = 0, lastApiCall = None\<rparr>,
                 disk = d,
                 cache = Map.empty\<rparr>"
| refresh_manual:
    "reachable s \<Longrightarrow> reachable (snd (refreshAll up f io now ''manual_endpoint'' s))"
| refresh_startup:
    "reachable s \<Longrightarrow> reachable (snd (refreshAll up f io now ''startup'' s))"
| save:
    "reachable s \<Longrightarrow> reachable (snd (saveSnapshotToDisk f io s))"
| load:
    "reachable s \<Longrightarrow> reachable (snd (loadSnapshotFromDisk f io s))"
| get_profile:
    "reachable s \<Longrightarrow> reachable (snd (getProfile_snapshot up now s))"
| get_performance:
    "reachable s \<Longrightarrow> reachable (snd (getPerformanceFull_snapshot up now s))"
| get_joined:
    "reachable s \<Longrightarrow> reachable (snd (getJoinedFull_snapshot up now s))"
| failed_request:
    "reachable s \<Longrightarrow> reachable (count_error s)"
| disk_changed:
    "reachable s \<Longrightarrow> reachable (s\<lparr>disk := d\<rparr>)"

section \<open>The route \<open>/api/schools\<close>\<close>

text \<open>
  A query value, as the query parser of the HTTP framework delivers it, is a string, an
  array of values or an object of values; the values an object holds under its keys are
  again strings, arrays and objects, never functions.
  \<^verbatim>\<open>app.get("/api/schools", async (req, res) => {
    try {
      const onlyMatched = (req.query.onlyMatched ?? "true").toString().toLowerCase() !== "false";
      if (onlyMatched) {
        const result = await getJoinedFull();
        return res.json(result);
      }
      // Outer-join fallback (if explicitly requested)
      ...
    } catch (err) {
      increment("errors");
      res.status(500).json({ error: String(err?.message || err) });
    }
  });\<close>
  The route calls the value's own \<open>toString\<close>. On a string it is the string. On an array
  it joins the strings of the elements with commas; the string of an element that is an
  array is its own join, and of an element that is an object it is what the object's
  \<open>toString\<close> gives. An object without a key \<open>toString\<close> inherits the method that gives
  \<open>[object Object]\<close>; an object with a key \<open>toString\<close> holds there a value that cannot be
  called, and the call throws a \<open>TypeError\<close>, also when it is made for an element of an
  array. The \<open>None\<close> of the result is that exception.
\<close>

datatype qval = QStr string | QArr "qval list" | QObj "(string \<times> qval) list"

fun join_comma :: "string list \<Rightarrow> string" where
  "join_comma [] = []"
| "join_comma [x] = x"
| "join_comma (x # y # ys) = x @ '','' @ join_comma (y # ys)"

text \<open>The strings of all elements, unless the conversion of one of them throws.\<close>

fun all_strings :: "string option list \<Rightarrow> string list option" where
  "all_strings [] = Some []"
| "all_strings (None # rest) = None"
| "all_strings (Some s # rest) = (case all_strings rest of None \<Rightarrow> None | Some ss \<Rightarrow> Some (s # ss))"

fun qToString :: "qval \<Rightarrow> string option" where
  "qToString (QStr s) = Some s"
| "qToString (QArr vs) =
     (case all_strings (map qToString vs) of None \<Rightarrow> None | Some ss \<Rightarrow> Some (join_comma ss))"
| "qToString (QObj fs) =
     (if ''toString'' \<in> set (map fst fs) then None else Some ''[object Object]'')"

definition toString_TypeError :: error where
  "toString_TypeError = Error ''req.query.onlyMatched.toString is not a function''"

text \<open>
  The flag \<open>onlyMatched\<close>, or the exception that the handler catches and answers with the
  status 500.
\<close>

definition onlyMatched :: "qval option \<Rightarrow> error + bool" where
  "onlyMatched q =
     (case qToString (case q of None \<Rightarrow> QStr ''true'' | Some v \<Rightarrow> v) of
        None \<Rightarrow> Inl toString_TypeError
      | Some s \<Rightarrow> Inr (toLowerCase s \<noteq> ''false''))"

datatype join_kind = Inner | Outer

definition schoolsJoinKind :: "qval option \<Rightarrow> error + join_kind" where
  "schoolsJoinKind q =
     (case onlyMatched q of
        Inl e \<Rightarrow> Inl e
      | Inr flag \<Rightarrow> Inr (if flag then Inner else Outer))"

text \<open>What the route answers with from the two datasets, when reading them succeeds.\<close>

definition schoolsJoin :: "qval option \<Rightarrow> dataset \<Rightarrow> dataset \<Rightarrow> error + join_result" where
  "schoolsJoin q prof perf =
     (case schoolsJoinKind q of
        Inl e \<Rightarrow> Inl e
      | Inr Inner \<Rightarrow> Inr (innerJoin prof perf)
      | Inr Outer \<Rightarrow> Inr (outerJoin prof perf))"

section \<open>Example data\<close>

text \<open>
  The example of the specification: a Profile sheet with the keys 1, 2, 3 and a
  Performance sheet, under a three-row header, with the keys 2, 3, 4.
\<close>

definition example_profile :: dataset where
  "example_profile =
     profileDataset
       [[CStr ''School ID'', CStr ''Name''],
        [CStr ''1'', CStr ''A''],
        [CStr ''2'', CStr ''B''],
        [CStr ''3'', CStr ''C'']]"

definition example_performance :: dataset where
  "example_performance =
     perfDataset
       [[CStr ''School'', CStr ''Results''],
        [CStr ''Id'', CStr ''Score''],
        [CStr [], CNum 2021]]
       [[CStr ''2'', CNum 70],
        [CStr ''3'', CNum 80],
        [CStr ''4'', CNum 90]]"

text \<open>
  Two further Profile sheets to join with the Performance sheet above: one with a
  column that has the name of a Performance column, and one whose key column is headed
  \<open>SchoolID\<close> and holds the key 3 as a number.
\<close>

definition collision_profile :: dataset where
  "collision_profile =
     profileDataset
       [[CStr ''School ID'', CStr ''Results | Score | 2021''],
        [CStr ''2'', CStr ''old''],
        [CStr ''9'', CStr ''z'']]"

definition renamed_key_profile :: dataset where
  "renamed_key_profile =
     profileDataset
       [[CStr ''SchoolID'', CStr ''Name''],
        [CNum 3, CStr ''C'']]"

text \<open>
  A process that has just started, and an upstream source, reached with an API key,
  whose ranges hold no data.
\<close>

definition initial_server :: server where
  "initial_server =
     \<lparr>SNAPSHOT = \<lparr>profile = None, performance = None, joinedMatched = None,
                  lastUpdated = None, lastReason = None\<rparr>,
      STATS = \<lparr>totalRequests = 0, cacheHits = 0, cacheMisses = 0, apiCalls = 0, errors = 0,
               lastApiCall = None\<rparr>,
      disk = Map.empty,
      cache = Map.empty\<rparr>"

definition empty_sheet_upstream :: upstream where
  "empty_sheet_upstream =
     \<lparr>spreadsheet_id = ''sheet'', service_account = False, authorize = None, api_key = ''key'',
      values_get = (\<lambda>_. Inr None)\<rparr>"

text \<open>A disk on which no operation fails.\<close>

definition ok_io :: disk_io where
  "ok_io = \<lparr>write_error = None, rename_error = None, read_error = None\<rparr>"

text \<open>The state after the refresh at startup.\<close>

definition startup_server :: server where
  "startup_server =
     snd (refreshAll empty_sheet_upstream ''snapshot.json'' ok_io 1000 ''startup'' initial_server)"

text \<open>An upstream source whose every request is rejected.\<close>

definition failing_upstream :: upstream where
  "failing_upstream =
     \<lparr>spreadsheet_id = ''sheet'', service_account = False, authorize = None, api_key = ''key'',
      values_get = (\<lambda>_. Inl (Error ''quota exceeded''))\<rparr>"

section \<open>Properties of the key column locator\<close>

lemma starts_with_iff: "starts_with s sub \<longleftrightarrow> (\<exists>t. s = sub @ t)"
  by (induction s sub rule: starts_with.induct) auto

lemma str_includes_iff: "str_includes s sub \<longleftrightarrow> (\<exists>pre post. s = pre @ sub @ post)"
proof (induction s)
  case Nil
  then show ?case by auto
next
  case (Cons x xs)
  show ?case
  proof
    assume "str_includes (x # xs) sub"
    then consider "starts_with (x # xs) sub" | "str_includes xs sub" by auto
    then show "\<exists>pre post. x # xs = pre @ sub @ post"
    proof cases
      case 1
      then obtain t where "x # xs = sub @ t" by (auto simp: starts_with_iff)
      then have "x # xs = [] @ sub @ t" by simp
      then show ?thesis by blast
    next
      case 2
      then obtain pre post where "xs = pre @ sub @ post" using Cons.IH by auto
      then have "x # xs = (x # pre) @ sub @ post" by simp
      then show ?thesis by blast
    qed
  next
    assume "\<exists>pre post. x # xs = pre @ sub @ post"
    then obtain pre post where e: "x # xs = pre @ sub @ post" by auto
    show "str_includes (x # xs) sub"
    proof (cases pre)
      case Nil
      with e have "starts_with (x # xs) sub" by (auto simp: starts_with_iff)
      then show ?thesis by simp
    next
      case (Cons p ps)
      with e have "xs = ps @ sub @ post" by simp
      then have "str_includes xs sub" using Cons.IH by auto
      then show ?thesis by simp
    qed
  qed
qed

lemma findFrom_range:
  "findFrom i hs = - 1 \<or> (int i \<le> findFrom i hs \<and> findFrom i hs < int i + int (length hs))"
proof (induction hs arbitrary: i)
  case Nil
  then show ?case by simp
next
  case (Cons h hs)
  then show ?case using Cons.IH[of "Suc i"] by auto
qed

lemma findFrom_none: "findFrom i hs = - 1 \<longleftrightarrow> (\<forall>h \<in> set hs. \<not> isSchoolIdHeader h)"
  by (induction hs arbitrary: i) auto

lemma findFrom_first:
  "findFrom i hs = int (i + k) \<longleftrightarrow>
     (k < length hs \<and> isSchoolIdHeader (hs ! k) \<and> (\<forall>j<k. \<not> isSchoolIdHeader (hs ! j)))"
proof (induction hs arbitrary: i k)
  case Nil
  then show ?case by simp
next
  case (Cons h hs)
  show ?case
  proof (cases k)
    case 0
    then show ?thesis using findFrom_range[of "Suc i" hs] by auto
  next
    case (Suc k')
    then show ?thesis using Cons.IH[of "Suc i" k']
      by (auto simp: less_Suc_eq_0_disj)
  qed
qed

lemma findSchoolIdIndex_range:
  "findSchoolIdIndex hs = - 1 \<or> (0 \<le> findSchoolIdIndex hs \<and> findSchoolIdIndex hs < int (length hs))"
  using findFrom_range[of 0 hs] by (simp add: findSchoolIdIndex_def)

lemma findSchoolIdIndex_first:
  "findSchoolIdIndex hs = int k \<longleftrightarrow>
     (k < length hs \<and> isSchoolIdHeader (hs ! k) \<and> (\<forall>j<k. \<not> isSchoolIdHeader (hs ! j)))"
  using findFrom_first[of 0 hs k] by (simp add: findSchoolIdIndex_def)

lemma findSchoolIdIndex_none:
  "findSchoolIdIndex hs = - 1 \<longleftrightarrow> (\<forall>h \<in> set hs. \<not> isSchoolIdHeader h)"
  by (simp add: findSchoolIdIndex_def findFrom_none)

lemma isSchoolIdHeader_iff:
  "isSchoolIdHeader h \<longleftrightarrow>
     normalised h = ''school id'' \<or> normalised h = ''schoolid'' \<or>
     ((\<exists>pre post. normalised h = pre @ ''school'' @ post) \<and>
      (\<exists>pre post. normalised h = pre @ ''id'' @ post))"
  unfolding isSchoolIdHeader_def Let_def str_includes_iff ..

text \<open>
  Claim C7. \<open>findSchoolIdIndex\<close> returns \<open>-1\<close> exactly when no header matches, and
  otherwise the lowest index whose header matches; a header matches when its string,
  trimmed and lower-cased, equals \<open>school id\<close>, equals \<open>schoolid\<close>, or contains both
  \<open>school\<close> and \<open>id\<close> as substrings. On the three header lists of the specification the
  results are 1, 0 and \<open>-1\<close>.
\<close>

theorem key_locator_lowest_match:
  "(findSchoolIdIndex hs = - 1 \<longleftrightarrow> (\<forall>h \<in> set hs. \<not> isSchoolIdHeader h)) \<and>
   (findSchoolIdIndex hs = int k \<longleftrightarrow>
      k < length hs \<and> isSchoolIdHeader (hs ! k) \<and> (\<forall>j<k. \<not> isSchoolIdHeader (hs ! j))) \<and>
   (findSchoolIdIndex hs = - 1 \<or>
      (0 \<le> findSchoolIdIndex hs \<and> findSchoolIdIndex hs < int (length hs))) \<and>
   (isSchoolIdHeader h \<longleftrightarrow>
      normalised h = ''school id'' \<or> normalised h = ''schoolid'' \<or>
      ((\<exists>pre post. normalised h = pre @ ''school'' @ post) \<and>
       (\<exists>pre post. normalised h = pre @ ''id'' @ post))) \<and>
   normalised h = toLowerCase (trim (toString (if truthy h then h else CStr []))) \<and>
   findSchoolIdIndex [CStr ''Name'', CStr ''School ID'', CStr ''Region''] = 1 \<and>
   findSchoolIdIndex [CStr ''schoolid'', CStr ''name''] = 0 \<and>
   findSchoolIdIndex [CStr ''id'', CStr ''name''] = - 1"
proof -
  have e1: "findSchoolIdIndex [CStr ''Name'', CStr ''School ID'', CStr ''Region''] = 1"
    by code_simp
  have e2: "findSchoolIdIndex [CStr ''schoolid'', CStr ''name''] = 0"
    by code_simp
  have e3: "findSchoolIdIndex [CStr ''id'', CStr ''name''] = - 1"
    by code_simp
  show ?thesis
    using findSchoolIdIndex_none[of hs] findSchoolIdIndex_first[of hs k]
      findSchoolIdIndex_range[of hs] isSchoolIdHeader_iff[of h] e1 e2 e3
    by (simp only: normalised_def simp_thms)
qed

text \<open>
  The characterisation of C7 applied to a list whose second and third headers both
  match: the lower index is returned.
\<close>

theorem key_locator_witness:
  "findSchoolIdIndex [CStr ''Region'', CStr '' My SCHOOL identifier '', CStr ''School ID''] = 1"
proof -
  let ?hs = "[CStr ''Region'', CStr '' My SCHOOL identifier '', CStr ''School ID'']"
  have a: "isSchoolIdHeader (?hs ! 1)" by code_simp
  have b: "\<not> isSchoolIdHeader (?hs ! 0)" by code_simp
  have "(1::nat) < length ?hs \<and> isSchoolIdHeader (?hs ! 1) \<and> (\<forall>j<1. \<not> isSchoolIdHeader (?hs ! j))"
    using a b by simp
  then have "findSchoolIdIndex ?hs = int 1"
    using key_locator_lowest_match[of ?hs 1] by blast
  then show ?thesis by simp
qed

section \<open>Properties of the keyed index and of the identifier lists\<close>

lemma map_of_map_set: "map_of (map_set k v m) = (map_of m)(k \<mapsto> v)"
  by (induction m) (auto simp: fun_eq_iff)

lemma map_keys_map_set: "map_keys (map_set k v m) = set_add (map_keys m) k"
  by (induction m) (force simp: map_keys_def set_add_def)+

lemma distinct_set_add: "distinct s \<Longrightarrow> distinct (set_add s x)"
  by (simp add: set_add_def)

lemma set_set_add: "set (set_add s x) = insert x (set s)"
  by (auto simp: set_add_def)

lemma foldl_set_add_set: "set (foldl set_add s xs) = set s \<union> set xs"
  by (induction xs arbitrary: s) (auto simp: set_set_add)

lemma foldl_set_add_distinct: "distinct s \<Longrightarrow> distinct (foldl set_add s xs)"
  by (induction xs arbitrary: s) (auto simp: distinct_set_add)

lemma foldl_set_add_append:
  "distinct xs \<Longrightarrow> foldl set_add s xs = s @ filter (\<lambda>x. x \<notin> set s) xs"
proof (induction xs arbitrary: s)
  case Nil
  then show ?case by simp
next
  case (Cons x xs)
  have "filter (\<lambda>y. y \<notin> set (set_add s x)) xs = filter (\<lambda>y. y \<notin> set s) xs"
    using Cons.prems by (auto simp: set_set_add intro!: filter_cong)
  then show ?case using Cons by (auto simp: set_add_def)
qed

lemma set_new_Set: "set (new_Set xs) = set xs"
  by (simp add: new_Set_def foldl_set_add_set)

lemma distinct_new_Set: "distinct (new_Set xs)"
  by (simp add: new_Set_def foldl_set_add_distinct)

lemma new_Set_append:
  "distinct xs \<Longrightarrow> distinct ys \<Longrightarrow> new_Set (xs @ ys) = xs @ filter (\<lambda>y. y \<notin> set xs) ys"
  by (simp add: new_Set_def foldl_set_add_append)

lemma addKeyed_keys:
  "map_keys (addKeyed kn m r) = (case keyOf kn r of None \<Rightarrow> map_keys m | Some k \<Rightarrow> set_add (map_keys m) k)"
  by (simp add: addKeyed_def map_keys_map_set split: option.splits)

lemma foldl_addKeyed_keys:
  "map_keys (foldl (addKeyed kn) m objs) = foldl set_add (map_keys m) (List.map_filter (keyOf kn) objs)"
  by (induction objs arbitrary: m) (auto simp: addKeyed_keys map_filter_simps split: option.splits)

lemma find_append: "find P (xs @ ys) = (case find P xs of None \<Rightarrow> find P ys | Some x \<Rightarrow> Some x)"
  by (induction xs) auto

lemma addKeyed_get:
  "map_of (addKeyed kn m r) k = (if keyOf kn r = Some k then Some r else map_of m k)"
  by (simp add: addKeyed_def map_of_map_set split: option.splits)

lemma foldl_addKeyed_get:
  "map_of (foldl (addKeyed kn) m objs) k =
     (case find (\<lambda>r. keyOf kn r = Some k) (rev objs) of None \<Rightarrow> map_of m k | Some r \<Rightarrow> Some r)"
proof (induction objs arbitrary: m)
  case Nil
  then show ?case by simp
next
  case (Cons r objs)
  have "map_of (foldl (addKeyed kn) (addKeyed kn m r) objs) k =
          (case find (\<lambda>r. keyOf kn r = Some k) (rev objs) of
             None \<Rightarrow> map_of (addKeyed kn m r) k
           | Some r \<Rightarrow> Some r)"
    by (rule Cons.IH)
  then show ?case
    by (simp add: find_append addKeyed_get split: option.splits)
qed

lemma keyOf_iff:
  "keyOf keyName r = Some k \<longleftrightarrow> (\<exists>v. r keyName = Some v \<and> v \<noteq> CStr [] \<and> k = toString v)"
  by (auto simp: keyOf_def split: option.splits)

lemma toKeyedBySchoolId_absent:
  "findSchoolIdIndex headerRow < 0 \<Longrightarrow> toKeyedBySchoolId objs headerRow = []"
  by (simp add: toKeyedBySchoolId_def)

lemma toKeyedBySchoolId_get:
  "0 \<le> findSchoolIdIndex headerRow \<Longrightarrow>
   map_get (toKeyedBySchoolId objs headerRow) k =
     find (\<lambda>r. keyOf (toString (headerRow ! nat (findSchoolIdIndex headerRow))) r = Some k) (rev objs)"
  by (simp add: toKeyedBySchoolId_def map_get_def Let_def foldl_addKeyed_get split: option.splits)

lemma toKeyedBySchoolId_keys:
  "0 \<le> findSchoolIdIndex headerRow \<Longrightarrow>
   map_keys (toKeyedBySchoolId objs headerRow) =
     new_Set (List.map_filter (keyOf (toString (headerRow ! nat (findSchoolIdIndex headerRow)))) objs)"
  using foldl_addKeyed_keys[of "toString (headerRow ! nat (findSchoolIdIndex headerRow))" "[]" objs]
  by (simp add: toKeyedBySchoolId_def Let_def new_Set_def map_keys_def)

lemma distinct_toKeyedBySchoolId: "distinct (map_keys (toKeyedBySchoolId objs headerRow))"
proof (cases "findSchoolIdIndex headerRow < 0")
  case True
  then show ?thesis by (simp add: toKeyedBySchoolId_absent map_keys_def)
next
  case False
  then show ?thesis by (simp add: toKeyedBySchoolId_keys distinct_new_Set)
qed

lemma find_Some_last:
  "find P (rev xs) = Some x \<longleftrightarrow>
     (\<exists>i<length xs. xs ! i = x \<and> P x \<and> (\<forall>j. i < j \<and> j < length xs \<longrightarrow> \<not> P (xs ! j)))"
proof -
  have "find P (rev xs) = Some x \<longleftrightarrow>
          (\<exists>i<length xs. P (rev xs ! i) \<and> x = rev xs ! i \<and> (\<forall>j<i. \<not> P (rev xs ! j)))"
    by (simp add: find_Some_iff)
  also have "\<dots> \<longleftrightarrow> (\<exists>i<length xs. xs ! i = x \<and> P x \<and> (\<forall>j. i < j \<and> j < length xs \<longrightarrow> \<not> P (xs ! j)))"
  proof
    assume "\<exists>i<length xs. P (rev xs ! i) \<and> x = rev xs ! i \<and> (\<forall>j<i. \<not> P (rev xs ! j))"
    then obtain i where i: "i < length xs" "P (rev xs ! i)" "x = rev xs ! i" "\<forall>j<i. \<not> P (rev xs ! j)"
      by blast
    let ?i = "length xs - Suc i"
    have "?i < length xs" using i by simp
    moreover have "xs ! ?i = x" using i by (simp add: rev_nth)
    moreover have "P x" using i by simp
    moreover have "\<forall>j. ?i < j \<and> j < length xs \<longrightarrow> \<not> P (xs ! j)"
    proof (intro allI impI)
      fix j assume j: "?i < j \<and> j < length xs"
      then have "length xs - Suc j < i" by arith
      then have "\<not> P (rev xs ! (length xs - Suc j))" using i by blast
      moreover have "rev xs ! (length xs - Suc j) = xs ! j"
      proof -
        have e: "length xs - Suc (length xs - Suc j) = j" using j by arith
        have "length xs - Suc j < length xs" using j by arith
        then have "rev xs ! (length xs - Suc j) = xs ! (length xs - Suc (length xs - Suc j))"
          by (rule rev_nth)
        with e show ?thesis by simp
      qed
      ultimately show "\<not> P (xs ! j)" by simp
    qed
    ultimately show "\<exists>i<length xs. xs ! i = x \<and> P x \<and> (\<forall>j. i < j \<and> j < length xs \<longrightarrow> \<not> P (xs ! j))"
      by blast
  next
    assume "\<exists>i<length xs. xs ! i = x \<and> P x \<and> (\<forall>j. i < j \<and> j < length xs \<longrightarrow> \<not> P (xs ! j))"
    then obtain i where i: "i < length xs" "xs ! i = x" "P x"
        "\<forall>j. i < j \<and> j < length xs \<longrightarrow> \<not> P (xs ! j)"
      by blast
    let ?i = "length xs - Suc i"
    have a: "?i < length xs" using i by simp
    have b: "rev xs ! ?i = x"
    proof -
      have e: "length xs - Suc ?i = i" using i by arith
      have "rev xs ! ?i = xs ! (length xs - Suc ?i)" using a by (rule rev_nth)
      with e i show ?thesis by simp
    qed
    have c: "\<forall>j<?i. \<not> P (rev xs ! j)"
    proof (intro allI impI)
      fix j assume j: "j < ?i"
      then have "i < length xs - Suc j \<and> length xs - Suc j < length xs" using i by arith
      then have "\<not> P (xs ! (length xs - Suc j))" using i by blast
      moreover have "rev xs ! j = xs ! (length xs - Suc j)" using j by (simp add: rev_nth)
      ultimately show "\<not> P (rev xs ! j)" by simp
    qed
    show "\<exists>i<length xs. P (rev xs ! i) \<and> x = rev xs ! i \<and> (\<forall>j<i. \<not> P (rev xs ! j))"
      using a b c i by blast
  qed
  finally show ?thesis .
qed

lemma toKeyedBySchoolId_has:
  assumes "0 \<le> findSchoolIdIndex headerRow"
  shows "map_has (toKeyedBySchoolId objs headerRow) k \<longleftrightarrow>
     (\<exists>r\<in>set objs. keyOf (toString (headerRow ! nat (findSchoolIdIndex headerRow))) r = Some k)"
proof -
  have "map_has (toKeyedBySchoolId objs headerRow) k \<longleftrightarrow>
          map_get (toKeyedBySchoolId objs headerRow) k \<noteq> None"
    by (simp add: map_has_def map_get_def)
  then show ?thesis
    using assms by (auto simp: toKeyedBySchoolId_get find_None_iff)
qed

lemma map_has_keys: "map_has m k \<longleftrightarrow> k \<in> set (map_keys m)"
  by (simp add: map_has_def map_keys_def map_of_eq_None_iff)

text \<open>
  Claim C6. When no header matches the key-column predicate the index is empty.
  Otherwise the index maps a key \<open>k\<close> to the last record of the dataset whose value at
  the key field is defined, is not the empty string and has the string \<open>k\<close>; every such
  record's key is in the index; the keys are the untrimmed strings of the values, in
  the order of their first insertion and without repetition. The values \<open>7\<close> and \<open>7\<close>
  followed by a space give two keys.
\<close>

theorem keyed_index_contents:
  "(findSchoolIdIndex headerRow < 0 \<longrightarrow> toKeyedBySchoolId objs headerRow = []) \<and>
   (0 \<le> findSchoolIdIndex headerRow \<longrightarrow>
      (let keyName = toString (headerRow ! nat (findSchoolIdIndex headerRow));
           idx = toKeyedBySchoolId objs headerRow
       in (\<forall>k r. map_get idx k = Some r \<longleftrightarrow>
              (\<exists>i<length objs. objs ! i = r \<and> keyOf keyName r = Some k \<and>
                 (\<forall>j. i < j \<and> j < length objs \<longrightarrow> keyOf keyName (objs ! j) \<noteq> Some k))) \<and>
          (\<forall>r v. r \<in> set objs \<and> r keyName = Some v \<and> v \<noteq> CStr [] \<longrightarrow>
                 map_has idx (toString v)) \<and>
          set (map_keys idx) = {k. \<exists>r\<in>set objs. keyOf keyName r = Some k} \<and>
          map_keys idx = new_Set (List.map_filter (keyOf keyName) objs) \<and>
          distinct (map_keys idx))) \<and>
   (keyOf kn rec = Some key \<longleftrightarrow> (\<exists>v. rec kn = Some v \<and> v \<noteq> CStr [] \<and> key = toString v)) \<and>
   toString (CStr s) = s \<and>
   map_keys (toKeyedBySchoolId
      (rowsToObjects [[CStr ''7'', CStr ''a''], [CStr ''7 '', CStr ''b'']] [CStr ''School ID'', CStr ''Name''])
      [CStr ''School ID'', CStr ''Name'']) = [''7'', ''7 '']"
proof -
  have absent: "findSchoolIdIndex headerRow < 0 \<longrightarrow> toKeyedBySchoolId objs headerRow = []"
    by (simp add: toKeyedBySchoolId_absent)
  have present: "0 \<le> findSchoolIdIndex headerRow \<longrightarrow>
      (let keyName = toString (headerRow ! nat (findSchoolIdIndex headerRow));
           idx = toKeyedBySchoolId objs headerRow
       in (\<forall>k r. map_get idx k = Some r \<longleftrightarrow>
              (\<exists>i<length objs. objs ! i = r \<and> keyOf keyName r = Some k \<and>
                 (\<forall>j. i < j \<and> j < length objs \<longrightarrow> keyOf keyName (objs ! j) \<noteq> Some k))) \<and>
          (\<forall>r v. r \<in> set objs \<and> r keyName = Some v \<and> v \<noteq> CStr [] \<longrightarrow>
                 map_has idx (toString v)) \<and>
          set (map_keys idx) = {k. \<exists>r\<in>set objs. keyOf keyName r = Some k} \<and>
          map_keys idx = new_Set (List.map_filter (keyOf keyName) objs) \<and>
          distinct (map_keys idx))"
  proof
    assume found: "0 \<le> findSchoolIdIndex headerRow"
    let ?kn = "toString (headerRow ! nat (findSchoolIdIndex headerRow))"
    let ?idx = "toKeyedBySchoolId objs headerRow"
    have a: "\<forall>k r. map_get ?idx k = Some r \<longleftrightarrow>
              (\<exists>i<length objs. objs ! i = r \<and> keyOf ?kn r = Some k \<and>
                 (\<forall>j. i < j \<and> j < length objs \<longrightarrow> keyOf ?kn (objs ! j) \<noteq> Some k))"
      using found by (simp add: toKeyedBySchoolId_get find_Some_last)
    have b: "\<forall>r v. r \<in> set objs \<and> r ?kn = Some v \<and> v \<noteq> CStr [] \<longrightarrow> map_has ?idx (toString v)"
      using found by (auto simp: toKeyedBySchoolId_has keyOf_iff)
    have c: "set (map_keys ?idx) = {k. \<exists>r\<in>set objs. keyOf ?kn r = Some k}"
      using found by (auto simp: map_has_keys[symmetric] toKeyedBySchoolId_has)
    have d: "map_keys ?idx = new_Set (List.map_filter (keyOf ?kn) objs)"
      using found by (rule toKeyedBySchoolId_keys)
    have e: "distinct (map_keys ?idx)"
      by (rule distinct_toKeyedBySchoolId)
    show "let keyName = ?kn; idx = ?idx
       in (\<forall>k r. map_get idx k = Some r \<longleftrightarrow>
              (\<exists>i<length objs. objs ! i = r \<and> keyOf keyName r = Some k \<and>
                 (\<forall>j. i < j \<and> j < length objs \<longrightarrow> keyOf keyName (objs ! j) \<noteq> Some k))) \<and>
          (\<forall>r v. r \<in> set objs \<and> r keyName = Some v \<and> v \<noteq> CStr [] \<longrightarrow>
                 map_has idx (toString v)) \<and>
          set (map_keys idx) = {k. \<exists>r\<in>set objs. keyOf keyName r = Some k} \<and>
          map_keys idx = new_Set (List.map_filter (keyOf keyName) objs) \<and>
          distinct (map_keys idx)"
      unfolding Let_def using a b c d e by blast
  qed
  have ex: "map_keys (toKeyedBySchoolId
      (rowsToObjects [[CStr ''7'', CStr ''a''], [CStr ''7 '', CStr ''b'']] [CStr ''School ID'', CStr ''Name''])
      [CStr ''School ID'', CStr ''Name'']) = [''7'', ''7 '']"
    by code_simp
  show ?thesis
    using absent present keyOf_iff[of kn rec key] ex by simp
qed

text \<open>
  C6 applied to a dataset of one record with the number 5 in the key column: the record
  is stored under the string of 5.
\<close>

theorem keyed_index_witness:
  "0 \<le> findSchoolIdIndex [CStr ''School ID''] \<and>
   map_has (toKeyedBySchoolId [[''School ID'' \<mapsto> CNum 5]] [CStr ''School ID'']) ''5''"
proof -
  let ?hs = "[CStr ''School ID'']"
  let ?r = "[''School ID'' \<mapsto> CNum 5]"
  have found: "0 \<le> findSchoolIdIndex ?hs" by code_simp
  have kn: "toString (?hs ! nat (findSchoolIdIndex ?hs)) = ''School ID''" by code_simp
  have str: "toString (CNum 5) = ''5''" by code_simp
  have "\<forall>r v. r \<in> set [?r] \<and> r ''School ID'' = Some v \<and> v \<noteq> CStr [] \<longrightarrow>
          map_has (toKeyedBySchoolId [?r] ?hs) (toString v)"
    using keyed_index_contents[of ?hs "[?r]"] found kn by (simp add: Let_def)
  then have "map_has (toKeyedBySchoolId [?r] ?hs) (toString (CNum 5))"
    by simp
  with found str show ?thesis by simp
qed

section \<open>Properties of the join engine\<close>

lemma innerIds_filter: "innerIds p q = filter (\<lambda>k. k \<in> set (map_keys q)) (map_keys p)"
  by (simp add: innerIds_def map_has_keys cong: filter_cong)

lemma set_innerIds: "set (innerIds p q) = set (map_keys p) \<inter> set (map_keys q)"
  by (auto simp: innerIds_filter)

lemma set_allIds: "set (allIds p q) = set (map_keys p) \<union> set (map_keys q)"
  by (simp add: allIds_def set_new_Set)

lemma distinct_allIds: "distinct (allIds p q)"
  by (simp add: allIds_def distinct_new_Set)

lemma allIds_append:
  "distinct (map_keys p) \<Longrightarrow> distinct (map_keys q) \<Longrightarrow>
   allIds p q = map_keys p @ filter (\<lambda>k. k \<notin> set (map_keys p)) (map_keys q)"
  by (simp add: allIds_def new_Set_append)

lemma merged_innerJoin:
  "merged (innerJoin prof perf) =
     mergeIds (find isSchoolIdHeader (headers prof)) (find isSchoolIdHeader (headers perf))
       (toKeyedBySchoolId (data prof) (headers prof))
       (toKeyedBySchoolId (data perf) (headers perf))
       (innerIds (toKeyedBySchoolId (data prof) (headers prof))
                 (toKeyedBySchoolId (data perf) (headers perf)))"
  by (simp add: innerJoin_def Let_def)

lemma count_innerJoin: "count (innerJoin prof perf) = length (merged (innerJoin prof perf))"
  by (simp add: innerJoin_def Let_def)

lemma merged_outerJoin:
  "merged (outerJoin prof perf) =
     mergeIds (find isSchoolIdHeader (headers prof)) (find isSchoolIdHeader (headers perf))
       (toKeyedBySchoolId (data prof) (headers prof))
       (toKeyedBySchoolId (data perf) (headers perf))
       (allIds (toKeyedBySchoolId (data prof) (headers prof))
               (toKeyedBySchoolId (data perf) (headers perf)))"
  by (simp add: outerJoin_def Let_def)

lemma count_outerJoin: "count (outerJoin prof perf) = length (merged (outerJoin prof perf))"
  by (simp add: outerJoin_def Let_def)

lemma length_mergeIds: "length (mergeIds hp hq p q ids) = length ids"
  by (simp add: mergeIds_def)

lemma nth_mergeIds:
  "i < length ids \<Longrightarrow>
   mergeIds hp hq p q ids ! i = mergeRow hp hq (get_or_empty p (ids ! i)) (get_or_empty q (ids ! i)) (ids ! i)"
  by (simp add: mergeIds_def)

lemma mergeRow_other:
  "f \<noteq> ''School ID'' \<Longrightarrow> mergeRow hp hq p q ident f = (case q f of None \<Rightarrow> p f | Some v \<Rightarrow> Some v)"
  by (simp add: mergeRow_def Let_def map_add_def split: option.splits)

lemma mergeRow_id_present:
  "truthy_opt ((p ++ q) ''School ID'') \<Longrightarrow> mergeRow hp hq p q ident ''School ID'' = (p ++ q) ''School ID''"
  by (simp add: mergeRow_def Let_def)

lemma mergeRow_id_filled:
  "\<not> truthy_opt ((p ++ q) ''School ID'') \<Longrightarrow>
   mergeRow hp hq p q ident ''School ID'' =
     Some (case keyFieldValue hp p of
             Some v \<Rightarrow> v
           | None \<Rightarrow> (case keyFieldValue hq q of Some v \<Rightarrow> v | None \<Rightarrow> CStr ident))"
  by (simp add: mergeRow_def Let_def split: option.splits)

lemma keyFieldValue_iff:
  "keyFieldValue h r = Some v \<longleftrightarrow> (\<exists>c. h = Some c \<and> truthy c \<and> r (toString c) = Some v \<and> v \<noteq> CNull)"
  by (auto simp: keyFieldValue_def not_nullish_def split: option.splits cell.splits)

lemma mergeRow_carries_id:
  "\<exists>v. mergeRow hp hq p q ident ''School ID'' = Some v \<and> v \<noteq> CNull"
proof (cases "truthy_opt ((p ++ q) ''School ID'')")
  case True
  then obtain v where "(p ++ q) ''School ID'' = Some v" "truthy v"
    by (auto simp: truthy_opt_def split: option.splits)
  moreover from this have "v \<noteq> CNull" by auto
  ultimately show ?thesis using True by (simp add: mergeRow_id_present)
next
  case False
  have "keyFieldValue hp p \<noteq> Some CNull" "keyFieldValue hq q \<noteq> Some CNull"
    by (simp_all add: keyFieldValue_iff)
  then show ?thesis using False
    by (auto simp: mergeRow_id_filled split: option.splits)
qed

lemma get_or_empty_absent: "k \<notin> set (map_keys m) \<Longrightarrow> get_or_empty m k = Map.empty"
  by (simp add: get_or_empty_def map_get_def map_keys_def map_of_eq_None_iff[THEN iffD2])

lemma get_or_empty_present: "map_get m k = Some r \<Longrightarrow> get_or_empty m k = r"
  by (simp add: get_or_empty_def)

text \<open>
  Claim C2. The identifiers of the inner join are the keys of the left index, in their
  order, that are keys of the right index; as a set, the intersection of the two key
  sets. The joined result holds one merged record for each of them, and its count is
  their number. With the left keys 1, 2, 3 and the right keys 2, 3, 4 the count is 2
  and the records are those of 2 and 3.
\<close>

theorem inner_join_keys:
  "innerIds pMap qMap = filter (\<lambda>k. k \<in> set (map_keys qMap)) (map_keys pMap) \<and>
   set (innerIds pMap qMap) = set (map_keys pMap) \<inter> set (map_keys qMap) \<and>
   (let p = toKeyedBySchoolId (data prof) (headers prof);
        q = toKeyedBySchoolId (data perf) (headers perf);
        res = innerJoin prof perf
    in merged res =
         map (\<lambda>ident. mergeRow (find isSchoolIdHeader (headers prof)) (find isSchoolIdHeader (headers perf))
                         (get_or_empty p ident) (get_or_empty q ident) ident)
             (innerIds p q) \<and>
       count res = length (merged res) \<and>
       count res = length (innerIds p q) \<and>
       count res = card (set (map_keys p) \<inter> set (map_keys q))) \<and>
   map_keys (toKeyedBySchoolId (data example_profile) (headers example_profile)) = [''1'', ''2'', ''3''] \<and>
   map_keys (toKeyedBySchoolId (data example_performance) (headers example_performance)) = [''2'', ''3'', ''4''] \<and>
   count (innerJoin example_profile example_performance) = 2 \<and>
   map (\<lambda>row. row ''School ID'') (merged (innerJoin example_profile example_performance)) =
     [Some (CStr ''2''), Some (CStr ''3'')]"
proof -
  let ?p = "toKeyedBySchoolId (data prof) (headers prof)"
  let ?q = "toKeyedBySchoolId (data perf) (headers perf)"
  have m: "merged (innerJoin prof perf) =
         map (\<lambda>ident. mergeRow (find isSchoolIdHeader (headers prof)) (find isSchoolIdHeader (headers perf))
                         (get_or_empty ?p ident) (get_or_empty ?q ident) ident)
             (innerIds ?p ?q)"
    by (simp add: merged_innerJoin mergeIds_def)
  have c1: "count (innerJoin prof perf) = length (merged (innerJoin prof perf))"
    by (rule count_innerJoin)
  have c2: "count (innerJoin prof perf) = length (innerIds ?p ?q)"
    by (simp add: c1 m)
  have "distinct (innerIds ?p ?q)"
    by (simp add: innerIds_filter distinct_toKeyedBySchoolId)
  then have "length (innerIds ?p ?q) = card (set (innerIds ?p ?q))"
    by (simp add: distinct_card)
  then have c3: "count (innerJoin prof perf) = card (set (map_keys ?p) \<inter> set (map_keys ?q))"
    by (simp add: c2 set_innerIds)
  have e1: "map_keys (toKeyedBySchoolId (data example_profile) (headers example_profile)) = [''1'', ''2'', ''3'']"
    unfolding example_profile_def by code_simp
  have e2: "map_keys (toKeyedBySchoolId (data example_performance) (headers example_performance)) = [''2'', ''3'', ''4'']"
    unfolding example_performance_def by code_simp
  have e3: "count (innerJoin example_profile example_performance) = 2"
    unfolding example_profile_def example_performance_def by code_simp
  have e4: "map (\<lambda>row. row ''School ID'') (merged (innerJoin example_profile example_performance)) =
     [Some (CStr ''2''), Some (CStr ''3'')]"
    unfolding example_profile_def example_performance_def by code_simp
  show ?thesis
    unfolding Let_def using innerIds_filter[of pMap qMap] set_innerIds[of pMap qMap] m c1 c2 c3 e1 e2 e3 e4
    by (intro conjI) assumption+
qed

text \<open>
  C2 applied to a left index with the keys a, b and a right index with the key b.
\<close>

theorem inner_join_keys_witness:
  "innerIds [(''a'', Map.empty), (''b'', Map.empty)] [(''b'', Map.empty)] = [''b'']"
proof -
  let ?P = "[(''a'', Map.empty), (''b'', Map.empty)] :: keyed"
  let ?Q = "[(''b'', Map.empty)] :: keyed"
  have "innerIds ?P ?Q = filter (\<lambda>k. k \<in> set (map_keys ?Q)) (map_keys ?P)"
    by (rule conjunct1[OF inner_join_keys])
  then show ?thesis by (simp add: map_keys_def)
qed

lemma get_or_empty_lookup:
  "get_or_empty m k = (case map_of m k of None \<Rightarrow> Map.empty | Some stored \<Rightarrow> stored)"
  by (simp add: get_or_empty_def map_get_def)

lemma toKeyedBySchoolId_stored:
  assumes "map_of (toKeyedBySchoolId objs headerRow) k = Some r"
  shows "r \<in> set objs \<and>
         keyOf (toString (headerRow ! nat (findSchoolIdIndex headerRow))) r = Some k"
proof (cases "findSchoolIdIndex headerRow < 0")
  case True
  then have "toKeyedBySchoolId objs headerRow = []" by (rule toKeyedBySchoolId_absent)
  with assms show ?thesis by simp
next
  case False
  then have "0 \<le> findSchoolIdIndex headerRow" by simp
  then have "find (\<lambda>r. keyOf (toString (headerRow ! nat (findSchoolIdIndex headerRow))) r = Some k)
               (rev objs) = Some r"
    using assms toKeyedBySchoolId_get[of headerRow objs k] by (simp add: map_get_def)
  then obtain i where i: "i < length (rev objs)" "r = rev objs ! i"
      "keyOf (toString (headerRow ! nat (findSchoolIdIndex headerRow))) (rev objs ! i) = Some k"
    unfolding find_Some_iff by blast
  from i(1) have "rev objs ! i \<in> set (rev objs)" by (rule nth_mem)
  with i show ?thesis by simp
qed

lemma key_has_record: "k \<in> set (map_keys m) \<Longrightarrow> \<exists>r. map_of m k = Some r"
  using map_has_keys[of m k] by (auto simp: map_has_def)

lemma innerIds_both_stored:
  assumes "k \<in> set (innerIds (toKeyedBySchoolId (data prof) (headers prof))
                              (toKeyedBySchoolId (data perf) (headers perf)))"
  shows "\<exists>pr qr.
           map_of (toKeyedBySchoolId (data prof) (headers prof)) k = Some pr \<and>
           map_of (toKeyedBySchoolId (data perf) (headers perf)) k = Some qr \<and>
           pr \<in> set (data prof) \<and> qr \<in> set (data perf) \<and>
           get_or_empty (toKeyedBySchoolId (data prof) (headers prof)) k = pr \<and>
           get_or_empty (toKeyedBySchoolId (data perf) (headers perf)) k = qr"
proof -
  let ?P = "toKeyedBySchoolId (data prof) (headers prof)"
  let ?Q = "toKeyedBySchoolId (data perf) (headers perf)"
  from assms have "k \<in> set (map_keys ?P)" "k \<in> set (map_keys ?Q)"
    by (simp_all add: set_innerIds)
  then obtain pr qr where st: "map_of ?P k = Some pr" "map_of ?Q k = Some qr"
    using key_has_record by blast
  then have "pr \<in> set (data prof)" "qr \<in> set (data perf)"
    using toKeyedBySchoolId_stored by blast+
  moreover have "get_or_empty ?P k = pr" "get_or_empty ?Q k = qr"
    using st by (simp_all add: get_or_empty_lookup)
  ultimately show ?thesis using st by blast
qed

text \<open>
  Claim C3. The two records merged for a key are the records stored under the key in
  the left and in the right index, or the empty record where an index has none; for a
  key of the inner join both are records of their datasets. A merged record has, at
  every field other than \<open>School ID\<close>, the value of the right record when the right
  record has the field, and the value of the left record otherwise; at \<open>School ID\<close> it
  has the merged value when that is truthy, and otherwise the left record's value at the
  left key header when that header exists and the value is neither \<open>null\<close> nor
  \<open>undefined\<close>, else the right record's value at the right key header under the same
  condition, else the join key. Both joins build every record so, with the first
  matching header of each side. A left \<open>Name\<close> of A and a right \<open>Name\<close> of B merge to B;
  joined with the example Performance sheet, a Profile column with the name of a
  Performance column takes the Performance value, and a Profile sheet whose key column
  is headed \<open>SchoolID\<close> gives its key value to the \<open>School ID\<close> of the merged record.
\<close>

theorem merged_record_fields:
  "(let row = mergeRow hp hq p q ident
    in (\<forall>f. f \<noteq> ''School ID'' \<longrightarrow> row f = (case q f of None \<Rightarrow> p f | Some v \<Rightarrow> Some v)) \<and>
       (truthy_opt ((p ++ q) ''School ID'') \<longrightarrow>
          row ''School ID'' = (case q ''School ID'' of None \<Rightarrow> p ''School ID'' | Some v \<Rightarrow> Some v)) \<and>
       (\<not> truthy_opt ((p ++ q) ''School ID'') \<longrightarrow>
          row ''School ID'' =
            Some (case keyFieldValue hp p of
                    Some v \<Rightarrow> v
                  | None \<Rightarrow> (case keyFieldValue hq q of Some v \<Rightarrow> v | None \<Rightarrow> CStr ident)))) \<and>
   (keyFieldValue h r = Some v \<longleftrightarrow>
      (\<exists>c. h = Some c \<and> truthy c \<and> r (toString c) = Some v \<and> v \<noteq> CNull)) \<and>
   merged (innerJoin prof perf) =
     map (\<lambda>k. mergeRow (find isSchoolIdHeader (headers prof)) (find isSchoolIdHeader (headers perf))
                 (get_or_empty (toKeyedBySchoolId (data prof) (headers prof)) k)
                 (get_or_empty (toKeyedBySchoolId (data perf) (headers perf)) k) k)
         (innerIds (toKeyedBySchoolId (data prof) (headers prof))
                   (toKeyedBySchoolId (data perf) (headers perf))) \<and>
   merged (outerJoin prof perf) =
     map (\<lambda>k. mergeRow (find isSchoolIdHeader (headers prof)) (find isSchoolIdHeader (headers perf))
                 (get_or_empty (toKeyedBySchoolId (data prof) (headers prof)) k)
                 (get_or_empty (toKeyedBySchoolId (data perf) (headers perf)) k) k)
         (allIds (toKeyedBySchoolId (data prof) (headers prof))
                 (toKeyedBySchoolId (data perf) (headers perf))) \<and>
   mergeRow hp hq [''School ID'' \<mapsto> CStr ''1'', ''Name'' \<mapsto> CStr ''A'']
                  [''School ID'' \<mapsto> CStr ''1'', ''Name'' \<mapsto> CStr ''B''] ''1'' ''Name''
     = Some (CStr ''B'') \<and>
   get_or_empty m key = (case map_of m key of None \<Rightarrow> Map.empty | Some stored \<Rightarrow> stored) \<and>
   (\<forall>k \<in> set (innerIds (toKeyedBySchoolId (data prof) (headers prof))
                         (toKeyedBySchoolId (data perf) (headers perf))).
      \<exists>pr qr.
        map_of (toKeyedBySchoolId (data prof) (headers prof)) k = Some pr \<and>
        map_of (toKeyedBySchoolId (data perf) (headers perf)) k = Some qr \<and>
        pr \<in> set (data prof) \<and> qr \<in> set (data perf) \<and>
        get_or_empty (toKeyedBySchoolId (data prof) (headers prof)) k = pr \<and>
        get_or_empty (toKeyedBySchoolId (data perf) (headers perf)) k = qr \<and>
        (\<forall>f. f \<noteq> ''School ID'' \<longrightarrow>
           mergeRow (find isSchoolIdHeader (headers prof)) (find isSchoolIdHeader (headers perf))
                    (get_or_empty (toKeyedBySchoolId (data prof) (headers prof)) k)
                    (get_or_empty (toKeyedBySchoolId (data perf) (headers perf)) k) k f
           = (case qr f of None \<Rightarrow> pr f | Some v \<Rightarrow> Some v))) \<and>
   map (\<lambda>row. (row ''School ID'', row ''Name'', row ''School | Id |'', row ''Results | Score | 2021''))
       (merged (innerJoin example_profile example_performance)) =
     [(Some (CStr ''2''), Some (CStr ''B''), Some (CStr ''2''), Some (CNum 70)),
      (Some (CStr ''3''), Some (CStr ''C''), Some (CStr ''3''), Some (CNum 80))] \<and>
   map (\<lambda>row. (row ''School ID'', row ''School | Id |'', row ''Results | Score | 2021''))
       (merged (innerJoin collision_profile example_performance)) =
     [(Some (CStr ''2''), Some (CStr ''2''), Some (CNum 70))] \<and>
   map (\<lambda>row. (row ''School ID'', row ''SchoolID'', row ''School | Id |'', row ''Name''))
       (merged (innerJoin renamed_key_profile example_performance)) =
     [(Some (CNum 3), Some (CNum 3), Some (CStr ''3''), Some (CStr ''C''))]"
proof -
  let ?P = "toKeyedBySchoolId (data prof) (headers prof)"
  let ?Q = "toKeyedBySchoolId (data perf) (headers perf)"
  let ?hp = "find isSchoolIdHeader (headers prof)"
  let ?hq = "find isSchoolIdHeader (headers perf)"
  have a: "\<forall>f. f \<noteq> ''School ID'' \<longrightarrow>
             mergeRow hp hq p q ident f = (case q f of None \<Rightarrow> p f | Some v \<Rightarrow> Some v)"
    by (simp add: mergeRow_other)
  have b: "truthy_opt ((p ++ q) ''School ID'') \<longrightarrow>
          mergeRow hp hq p q ident ''School ID'' =
            (case q ''School ID'' of None \<Rightarrow> p ''School ID'' | Some v \<Rightarrow> Some v)"
    by (simp add: mergeRow_id_present map_add_def)
  have c: "\<not> truthy_opt ((p ++ q) ''School ID'') \<longrightarrow>
          mergeRow hp hq p q ident ''School ID'' =
            Some (case keyFieldValue hp p of
                    Some v \<Rightarrow> v
                  | None \<Rightarrow> (case keyFieldValue hq q of Some v \<Rightarrow> v | None \<Rightarrow> CStr ident))"
    by (simp add: mergeRow_id_filled)
  have abc: "let row = mergeRow hp hq p q ident
    in (\<forall>f. f \<noteq> ''School ID'' \<longrightarrow> row f = (case q f of None \<Rightarrow> p f | Some v \<Rightarrow> Some v)) \<and>
       (truthy_opt ((p ++ q) ''School ID'') \<longrightarrow>
          row ''School ID'' = (case q ''School ID'' of None \<Rightarrow> p ''School ID'' | Some v \<Rightarrow> Some v)) \<and>
       (\<not> truthy_opt ((p ++ q) ''School ID'') \<longrightarrow>
          row ''School ID'' =
            Some (case keyFieldValue hp p of
                    Some v \<Rightarrow> v
                  | None \<Rightarrow> (case keyFieldValue hq q of Some v \<Rightarrow> v | None \<Rightarrow> CStr ident)))"
    unfolding Let_def using a b c by blast
  have kf: "keyFieldValue h r = Some v \<longleftrightarrow>
      (\<exists>c. h = Some c \<and> truthy c \<and> r (toString c) = Some v \<and> v \<noteq> CNull)"
    by (rule keyFieldValue_iff)
  have mi: "merged (innerJoin prof perf) =
     map (\<lambda>k. mergeRow ?hp ?hq (get_or_empty ?P k) (get_or_empty ?Q k) k) (innerIds ?P ?Q)"
    by (simp add: merged_innerJoin mergeIds_def)
  have mo: "merged (outerJoin prof perf) =
     map (\<lambda>k. mergeRow ?hp ?hq (get_or_empty ?P k) (get_or_empty ?Q k) k) (allIds ?P ?Q)"
    by (simp add: merged_outerJoin mergeIds_def)
  have d: "mergeRow hp hq [''School ID'' \<mapsto> CStr ''1'', ''Name'' \<mapsto> CStr ''A'']
                  [''School ID'' \<mapsto> CStr ''1'', ''Name'' \<mapsto> CStr ''B''] ''1'' ''Name''
     = Some (CStr ''B'')"
    by (simp add: mergeRow_other)
  have look: "get_or_empty m key = (case map_of m key of None \<Rightarrow> Map.empty | Some stored \<Rightarrow> stored)"
    by (rule get_or_empty_lookup)
  have stored: "\<forall>k \<in> set (innerIds ?P ?Q).
      \<exists>pr qr.
        map_of ?P k = Some pr \<and> map_of ?Q k = Some qr \<and>
        pr \<in> set (data prof) \<and> qr \<in> set (data perf) \<and>
        get_or_empty ?P k = pr \<and> get_or_empty ?Q k = qr \<and>
        (\<forall>f. f \<noteq> ''School ID'' \<longrightarrow>
           mergeRow ?hp ?hq (get_or_empty ?P k) (get_or_empty ?Q k) k f
           = (case qr f of None \<Rightarrow> pr f | Some v \<Rightarrow> Some v))"
  proof
    fix k assume "k \<in> set (innerIds ?P ?Q)"
    then obtain pr qr where st: "map_of ?P k = Some pr" "map_of ?Q k = Some qr"
        "pr \<in> set (data prof)" "qr \<in> set (data perf)"
        "get_or_empty ?P k = pr" "get_or_empty ?Q k = qr"
      using innerIds_both_stored[of k prof perf] by blast
    have "\<forall>f. f \<noteq> ''School ID'' \<longrightarrow>
           mergeRow ?hp ?hq (get_or_empty ?P k) (get_or_empty ?Q k) k f
           = (case qr f of None \<Rightarrow> pr f | Some v \<Rightarrow> Some v)"
      by (simp add: st mergeRow_other)
    with st show "\<exists>pr qr.
        map_of ?P k = Some pr \<and> map_of ?Q k = Some qr \<and>
        pr \<in> set (data prof) \<and> qr \<in> set (data perf) \<and>
        get_or_empty ?P k = pr \<and> get_or_empty ?Q k = qr \<and>
        (\<forall>f. f \<noteq> ''School ID'' \<longrightarrow>
           mergeRow ?hp ?hq (get_or_empty ?P k) (get_or_empty ?Q k) k f
           = (case qr f of None \<Rightarrow> pr f | Some v \<Rightarrow> Some v))"
      by blast
  qed
  have e1: "map (\<lambda>row. (row ''School ID'', row ''Name'', row ''School | Id |'', row ''Results | Score | 2021''))
       (merged (innerJoin example_profile example_performance)) =
     [(Some (CStr ''2''), Some (CStr ''B''), Some (CStr ''2''), Some (CNum 70)),
      (Some (CStr ''3''), Some (CStr ''C''), Some (CStr ''3''), Some (CNum 80))]"
    unfolding example_profile_def example_performance_def by code_simp
  have e2: "map (\<lambda>row. (row ''School ID'', row ''School | Id |'', row ''Results | Score | 2021''))
       (merged (innerJoin collision_profile example_performance)) =
     [(Some (CStr ''2''), Some (CStr ''2''), Some (CNum 70))]"
    unfolding collision_profile_def example_performance_def by code_simp
  have e3: "map (\<lambda>row. (row ''School ID'', row ''SchoolID'', row ''School | Id |'', row ''Name''))
       (merged (innerJoin renamed_key_profile example_performance)) =
     [(Some (CNum 3), Some (CNum 3), Some (CStr ''3''), Some (CStr ''C''))]"
    unfolding renamed_key_profile_def example_performance_def by code_simp
  show ?thesis
    using abc kf mi mo d look stored e1 e2 e3 by (intro conjI) assumption+
qed

text \<open>
  C3 applied to a left record whose key header is spelt \<open>School Id\<close>: the merged record
  has no \<open>School ID\<close> field, and is given the left record's value at that header.
\<close>

theorem merged_record_fields_witness:
  "mergeRow (Some (CStr ''School Id'')) None
     [''School Id'' \<mapsto> CNum 7, ''Name'' \<mapsto> CStr ''A''] [''Name'' \<mapsto> CStr ''B''] ''7'' ''School ID''
   = Some (CNum 7)"
proof -
  let ?p = "[''School Id'' \<mapsto> CNum 7, ''Name'' \<mapsto> CStr ''A'']"
  let ?q = "[''Name'' \<mapsto> CStr ''B'']"
  have missing: "\<not> truthy_opt ((?p ++ ?q) ''School ID'')"
    by (simp add: truthy_opt_def map_add_def)
  have left: "keyFieldValue (Some (CStr ''School Id'')) ?p = Some (CNum 7)"
    by (simp add: keyFieldValue_def not_nullish_def)
  note inst = merged_record_fields[where hp = "Some (CStr ''School Id'')" and hq = None
      and p = ?p and q = ?q and ident = "''7''", THEN conjunct1, unfolded Let_def]
  from inst have "\<not> truthy_opt ((?p ++ ?q) ''School ID'') \<longrightarrow>
          mergeRow (Some (CStr ''School Id'')) None ?p ?q ''7'' ''School ID'' =
            Some (case keyFieldValue (Some (CStr ''School Id'')) ?p of
                    Some v \<Rightarrow> v
                  | None \<Rightarrow> (case keyFieldValue None ?q of Some v \<Rightarrow> v | None \<Rightarrow> CStr ''7''))"
    by (elim conjE)
  with missing left show ?thesis by simp
qed

lemma outerJoin_carries_id:
  "row \<in> set (merged (outerJoin prof perf)) \<Longrightarrow> \<exists>v. row ''School ID'' = Some v \<and> v \<noteq> CNull"
  using mergeRow_carries_id by (auto simp: merged_outerJoin mergeIds_def)

text \<open>
  Claim C4. The identifiers of the outer join are, as a set, the union of the two key
  sets, without repetition: the left keys in their order, then the right keys that are
  not left keys. The result holds one merged record for each and its count is their
  number. A key absent from one index is merged with the empty record on that side, so
  that apart from \<open>School ID\<close> the record has exactly the other side's fields; and every
  record has a \<open>School ID\<close> field that is not \<open>null\<close>. With the left keys 1, 2, 3 and the
  right keys 2, 3, 4 the count is 4, the record of 1 has no Performance field and the
  record of 4 no Profile field.
\<close>

theorem outer_join_keys:
  "set (allIds pMap qMap) = set (map_keys pMap) \<union> set (map_keys qMap) \<and>
   distinct (allIds pMap qMap) \<and>
   (let p = toKeyedBySchoolId (data prof) (headers prof);
        q = toKeyedBySchoolId (data perf) (headers perf);
        res = outerJoin prof perf
    in allIds p q = map_keys p @ filter (\<lambda>k. k \<notin> set (map_keys p)) (map_keys q) \<and>
       merged res =
         map (\<lambda>k. mergeRow (find isSchoolIdHeader (headers prof)) (find isSchoolIdHeader (headers perf))
                     (get_or_empty p k) (get_or_empty q k) k)
             (allIds p q) \<and>
       count res = length (merged res) \<and>
       count res = card (set (map_keys p) \<union> set (map_keys q)) \<and>
       (\<forall>k. k \<notin> set (map_keys p) \<longrightarrow> get_or_empty p k = Map.empty) \<and>
       (\<forall>k. k \<notin> set (map_keys q) \<longrightarrow> get_or_empty q k = Map.empty) \<and>
       (\<forall>row \<in> set (merged res). \<exists>v. row ''School ID'' = Some v \<and> v \<noteq> CNull)) \<and>
   (\<forall>f. f \<noteq> ''School ID'' \<longrightarrow> mergeRow hp hq left Map.empty ident f = left f) \<and>
   (\<forall>f. f \<noteq> ''School ID'' \<longrightarrow> mergeRow hp hq Map.empty right ident f = right f) \<and>
   count (outerJoin example_profile example_performance) = 4 \<and>
   map (\<lambda>row. (row ''School ID'', row ''Name'', row ''School | Id |'', row ''Results | Score | 2021''))
       (merged (outerJoin example_profile example_performance)) =
     [(Some (CStr ''1''), Some (CStr ''A''), None, None),
      (Some (CStr ''2''), Some (CStr ''B''), Some (CStr ''2''), Some (CNum 70)),
      (Some (CStr ''3''), Some (CStr ''C''), Some (CStr ''3''), Some (CNum 80)),
      (Some (CStr ''4''), None, Some (CStr ''4''), Some (CNum 90))]"
proof -
  let ?p = "toKeyedBySchoolId (data prof) (headers prof)"
  let ?q = "toKeyedBySchoolId (data perf) (headers perf)"
  have ids: "allIds ?p ?q = map_keys ?p @ filter (\<lambda>k. k \<notin> set (map_keys ?p)) (map_keys ?q)"
    by (simp add: allIds_append distinct_toKeyedBySchoolId)
  have m: "merged (outerJoin prof perf) =
         map (\<lambda>k. mergeRow (find isSchoolIdHeader (headers prof)) (find isSchoolIdHeader (headers perf))
                     (get_or_empty ?p k) (get_or_empty ?q k) k)
             (allIds ?p ?q)"
    by (simp add: merged_outerJoin mergeIds_def)
  have c1: "count (outerJoin prof perf) = length (merged (outerJoin prof perf))"
    by (rule count_outerJoin)
  have "length (allIds ?p ?q) = card (set (allIds ?p ?q))"
    by (simp add: distinct_card distinct_allIds)
  then have c2: "count (outerJoin prof perf) = card (set (map_keys ?p) \<union> set (map_keys ?q))"
    by (simp add: c1 m set_allIds)
  have g1: "\<forall>k. k \<notin> set (map_keys ?p) \<longrightarrow> get_or_empty ?p k = Map.empty"
    by (simp add: get_or_empty_absent)
  have g2: "\<forall>k. k \<notin> set (map_keys ?q) \<longrightarrow> get_or_empty ?q k = Map.empty"
    by (simp add: get_or_empty_absent)
  have sid: "\<forall>row \<in> set (merged (outerJoin prof perf)). \<exists>v. row ''School ID'' = Some v \<and> v \<noteq> CNull"
    using outerJoin_carries_id by blast
  have l: "\<forall>f. f \<noteq> ''School ID'' \<longrightarrow> mergeRow hp hq left Map.empty ident f = left f"
    by (simp add: mergeRow_other)
  have r: "\<forall>f. f \<noteq> ''School ID'' \<longrightarrow> mergeRow hp hq Map.empty right ident f = right f"
    by (simp add: mergeRow_other split: option.splits)
  have e1: "count (outerJoin example_profile example_performance) = 4"
    unfolding example_profile_def example_performance_def by code_simp
  have e2: "map (\<lambda>row. (row ''School ID'', row ''Name'', row ''School | Id |'', row ''Results | Score | 2021''))
       (merged (outerJoin example_profile example_performance)) =
     [(Some (CStr ''1''), Some (CStr ''A''), None, None),
      (Some (CStr ''2''), Some (CStr ''B''), Some (CStr ''2''), Some (CNum 70)),
      (Some (CStr ''3''), Some (CStr ''C''), Some (CStr ''3''), Some (CNum 80)),
      (Some (CStr ''4''), None, Some (CStr ''4''), Some (CNum 90))]"
    unfolding example_profile_def example_performance_def by code_simp
  show ?thesis
    unfolding Let_def
    using set_allIds[of pMap qMap] distinct_allIds[of pMap qMap] ids m c1 c2 g1 g2 sid l r e1 e2
    by (intro conjI) assumption+
qed

text \<open>
  C4 applied to the example: the record of the key 4, which only the Performance sheet
  has, carries a \<open>School ID\<close>.
\<close>

theorem outer_join_keys_witness:
  "\<exists>v. (merged (outerJoin example_profile example_performance) ! 3) ''School ID'' = Some v \<and> v \<noteq> CNull"
proof -
  let ?res = "outerJoin example_profile example_performance"
  have all: "\<forall>row \<in> set (merged ?res). \<exists>v. row ''School ID'' = Some v \<and> v \<noteq> CNull"
    and len: "count ?res = length (merged ?res)"
    and four: "count ?res = 4"
    using outer_join_keys[of _ _ example_profile example_performance]
    unfolding Let_def by blast+
  from len four have "3 < length (merged ?res)" by simp
  then have "merged ?res ! 3 \<in> set (merged ?res)" by (rule nth_mem)
  with all show ?thesis by blast
qed

section \<open>Properties of the header flattener and of the route\<close>

lemma dropWhile_keeps: "x \<in> set xs \<Longrightarrow> \<not> P x \<Longrightarrow> x \<in> set (dropWhile P xs)"
  by (induction xs) auto

lemma trim_keeps: "c \<in> set s \<Longrightarrow> \<not> is_ws c \<Longrightarrow> c \<in> set (trim s)"
  by (simp add: trim_def dropWhile_keeps)

lemma bar_not_ws: "\<not> is_ws CHR ''|''"
  by (simp add: is_ws_def)

lemma digit_not_bar: "d < 10 \<Longrightarrow> digit d \<noteq> CHR ''|''"
proof -
  assume "d < 10"
  then have "d \<in> {0, 1, 2, 3, 4, 5, 6, 7, 8, 9}" by auto
  then show ?thesis by (auto simp: digit_def)
qed

lemma string_of_nat_no_bar: "CHR ''|'' \<notin> set (string_of_nat n)"
proof (induction n rule: string_of_nat.induct)
  case (1 n)
  show ?case
  proof (cases "n < 10")
    case True
    then show ?thesis using digit_not_bar[of n] by (simp add: string_of_nat.simps)
  next
    case False
    have "n mod 10 < 10" by simp
    then have "digit (n mod 10) \<noteq> CHR ''|''" by (rule digit_not_bar)
    with False 1 show ?thesis by (auto simp: string_of_nat.simps[of n])
  qed
qed

lemma col_placeholder_no_bar: "CHR ''|'' \<notin> set (col_placeholder i)"
  by (simp add: col_placeholder_def string_of_nat_no_bar)

lemma joined_has_bar:
  "CHR ''|'' \<in> set (trim (a @ '' | '' @ b @ '' | '' @ c))"
  by (rule trim_keeps) (simp_all add: bar_not_ws)

lemma perfLabel_joined:
  "perfLabel h1 h2 h3 i =
     trim (toString (or_empty (elem_at h1 i)) @ '' | '' @ toString (or_empty (elem_at h2 i)) @ '' | '' @
           toString (or_empty (elem_at h3 i)))"
proof -
  have "trim (toString (or_empty (elem_at h1 i)) @ '' | '' @ toString (or_empty (elem_at h2 i)) @ '' | '' @
           toString (or_empty (elem_at h3 i))) \<noteq> []"
    using joined_has_bar[of "toString (or_empty (elem_at h1 i))" "toString (or_empty (elem_at h2 i))"
        "toString (or_empty (elem_at h3 i))"]
    by force
  then show ?thesis by (simp add: perfLabel_def Let_def)
qed

lemma perfLabel_has_bar: "CHR ''|'' \<in> set (perfLabel h1 h2 h3 i)"
  unfolding perfLabel_joined by (rule joined_has_bar)

lemma perfLabel_not_placeholder: "perfLabel h1 h2 h3 i \<noteq> col_placeholder k"
  using perfLabel_has_bar[of h1 h2 h3 i] col_placeholder_no_bar[of k] by auto

text \<open>
  Claim C5. The flattened header has the width of the widest header row and its label at
  each position is the trimmed join of the three cells, a missing cell counting as the
  empty string. The join always contains the two separators, so that it is never empty
  after trimming: the placeholder \<open>col_<index>\<close> is never produced, and a position whose
  three cells are empty is labelled with the two separators.
\<close>

theorem perf_headers_placeholder_unreachable:
  "length (buildPerfFlatHeaders h1 h2 h3) = max (length h1) (max (length h2) (length h3)) \<and>
   buildPerfFlatHeaders h1 h2 h3 =
     map (\<lambda>i. trim (toString (or_empty (elem_at h1 i)) @ '' | '' @
                     toString (or_empty (elem_at h2 i)) @ '' | '' @
                     toString (or_empty (elem_at h3 i))))
         [0..<max (length h1) (max (length h2) (length h3))] \<and>
   col_placeholder k \<notin> set (buildPerfFlatHeaders h1 h2 h3) \<and>
   buildPerfFlatHeaders [CStr ''A'', CStr ''B''] [CStr ''x'', CStr ''y''] [CNum 2021, CNum 2022] =
     [''A | x | 2021'', ''B | y | 2022''] \<and>
   buildPerfFlatHeaders [CStr []] [CStr []] [CStr []] = [''|  |''] \<and>
   col_placeholder 0 = ''col_0'' \<and>
   buildPerfFlatHeaders [CStr ''A''] [] [CStr ''z'', CNull] = [''A |  | z'', ''|  |'']"
proof -
  have len: "length (buildPerfFlatHeaders h1 h2 h3) = max (length h1) (max (length h2) (length h3))"
    by (simp add: buildPerfFlatHeaders_def Let_def)
  have labels: "buildPerfFlatHeaders h1 h2 h3 =
     map (\<lambda>i. trim (toString (or_empty (elem_at h1 i)) @ '' | '' @
                     toString (or_empty (elem_at h2 i)) @ '' | '' @
                     toString (or_empty (elem_at h3 i))))
         [0..<max (length h1) (max (length h2) (length h3))]"
    unfolding buildPerfFlatHeaders_def Let_def
    by (rule map_cong) (simp_all add: perfLabel_joined)
  have never: "col_placeholder k \<notin> set (buildPerfFlatHeaders h1 h2 h3)"
    using perfLabel_not_placeholder[of h1 h2 h3 _ k, symmetric]
    by (auto simp: buildPerfFlatHeaders_def Let_def)
  have e1: "buildPerfFlatHeaders [CStr ''A'', CStr ''B''] [CStr ''x'', CStr ''y''] [CNum 2021, CNum 2022] =
     [''A | x | 2021'', ''B | y | 2022'']"
    by code_simp
  have e2: "buildPerfFlatHeaders [CStr []] [CStr []] [CStr []] = [''|  |'']"
    by code_simp
  have e3: "col_placeholder 0 = ''col_0''"
    by code_simp
  have e4: "buildPerfFlatHeaders [CStr ''A''] [] [CStr ''z'', CNull] = [''A |  | z'', ''|  |'']"
    by code_simp
  show ?thesis
    using len labels never e1 e2 e3 e4 by (intro conjI) assumption+
qed

text \<open>
  C5 applied to three header rows whose second column is empty in each row.
\<close>

theorem perf_headers_placeholder_witness:
  "''col_1'' \<notin> set (buildPerfFlatHeaders [CStr ''A'', CStr []] [CStr ''x''] [CNum 2021, CNull])"
proof -
  have name: "col_placeholder 1 = ''col_1''" by code_simp
  have "col_placeholder 1 \<notin> set (buildPerfFlatHeaders [CStr ''A'', CStr []] [CStr ''x''] [CNum 2021, CNull])"
    by (rule conjunct1[OF conjunct2[OF conjunct2[OF perf_headers_placeholder_unreachable]]])
  with name show ?thesis by simp
qed

lemma all_strings_None: "all_strings xs = None \<longleftrightarrow> None \<in> set xs"
  by (induction xs rule: all_strings.induct) (auto split: option.splits)

lemma qToString_array_throws:
  "qToString (QArr vs) = None \<longleftrightarrow> (\<exists>v \<in> set vs. qToString v = None)"
proof -
  have "qToString (QArr vs) = None \<longleftrightarrow> all_strings (map qToString vs) = None"
    by (simp split: option.splits)
  also have "\<dots> \<longleftrightarrow> None \<in> set (map qToString vs)"
    by (rule all_strings_None)
  also have "\<dots> \<longleftrightarrow> (\<exists>v \<in> set vs. qToString v = None)"
    by force
  finally show ?thesis .
qed

lemma qToString_object_throws:
  "qToString (QObj fs) = None \<longleftrightarrow> ''toString'' \<in> fst ` set fs"
  by simp

lemma true_not_false: "toLowerCase ''true'' \<noteq> ''false''"
  by code_simp

text \<open>
  Claim C10, amended. When the value of \<open>onlyMatched\<close> is absent or its \<open>toString\<close> returns
  a string, the route takes the outer join exactly when the value is present and that
  string, lower-cased, is \<open>false\<close>, and the inner join in every other case, among them
  an absent parameter, \<open>0\<close>, \<open>no\<close> and a misspelt \<open>fals\<close>. When the \<open>toString\<close> of the value
  throws, which it does on an object with a key \<open>toString\<close> and on an array that holds
  such an object, the route takes neither join and answers with the error.
\<close>

theorem schools_outer_iff_false:
  "(schoolsJoinKind query = Inr Outer \<longleftrightarrow>
      (\<exists>v s. query = Some v \<and> qToString v = Some s \<and> toLowerCase s = ''false'')) \<and>
   (schoolsJoinKind query = Inr Inner \<longleftrightarrow>
      (query = None \<or> (\<exists>v s. query = Some v \<and> qToString v = Some s \<and> toLowerCase s \<noteq> ''false''))) \<and>
   (isl (schoolsJoinKind query) \<longleftrightarrow> (\<exists>v. query = Some v \<and> qToString v = None)) \<and>
   schoolsJoin query prof perf =
     (case schoolsJoinKind query of
        Inl e \<Rightarrow> Inl e
      | Inr Inner \<Rightarrow> Inr (innerJoin prof perf)
      | Inr Outer \<Rightarrow> Inr (outerJoin prof perf)) \<and>
   qToString (QStr s) = Some s \<and>
   (qToString (QObj fs) = None \<longleftrightarrow> ''toString'' \<in> fst ` set fs) \<and>
   (qToString (QObj fs) \<noteq> None \<longleftrightarrow> qToString (QObj fs) = Some ''[object Object]'') \<and>
   (qToString (QArr vs) = None \<longleftrightarrow> (\<exists>v \<in> set vs. qToString v = None)) \<and>
   schoolsJoinKind None = Inr Inner \<and>
   schoolsJoinKind (Some (QStr ''0'')) = Inr Inner \<and>
   schoolsJoinKind (Some (QStr ''no'')) = Inr Inner \<and>
   schoolsJoinKind (Some (QStr ''fals'')) = Inr Inner \<and>
   schoolsJoinKind (Some (QStr ''false '')) = Inr Inner \<and>
   schoolsJoinKind (Some (QStr [])) = Inr Inner \<and>
   schoolsJoinKind (Some (QStr ''true'')) = Inr Inner \<and>
   schoolsJoinKind (Some (QObj [(''a'', QStr ''false'')])) = Inr Inner \<and>
   schoolsJoinKind (Some (QStr ''false'')) = Inr Outer \<and>
   schoolsJoinKind (Some (QStr ''FALSE'')) = Inr Outer \<and>
   schoolsJoinKind (Some (QArr [QStr ''False''])) = Inr Outer \<and>
   schoolsJoinKind (Some (QObj [(''toString'', QStr ''x'')])) = Inl toString_TypeError \<and>
   schoolsJoinKind (Some (QArr [QStr ''false'', QObj [(''toString'', QStr ''x'')]])) = Inl toString_TypeError"
proof -
  have outer: "schoolsJoinKind query = Inr Outer \<longleftrightarrow>
      (\<exists>v s. query = Some v \<and> qToString v = Some s \<and> toLowerCase s = ''false'')"
    using true_not_false
    by (cases query) (auto simp: schoolsJoinKind_def onlyMatched_def split: option.splits)
  have inner: "schoolsJoinKind query = Inr Inner \<longleftrightarrow>
      (query = None \<or> (\<exists>v s. query = Some v \<and> qToString v = Some s \<and> toLowerCase s \<noteq> ''false''))"
    using true_not_false
    by (cases query) (auto simp: schoolsJoinKind_def onlyMatched_def split: option.splits)
  have throws: "isl (schoolsJoinKind query) \<longleftrightarrow> (\<exists>v. query = Some v \<and> qToString v = None)"
    by (cases query) (auto simp: schoolsJoinKind_def onlyMatched_def split: option.splits)
  have route: "schoolsJoin query prof perf =
     (case schoolsJoinKind query of
        Inl e \<Rightarrow> Inl e
      | Inr Inner \<Rightarrow> Inr (innerJoin prof perf)
      | Inr Outer \<Rightarrow> Inr (outerJoin prof perf))"
    by (simp add: schoolsJoin_def)
  have str: "qToString (QStr s) = Some s" by simp
  have obj1: "qToString (QObj fs) = None \<longleftrightarrow> ''toString'' \<in> fst ` set fs"
    by (rule qToString_object_throws)
  have obj2: "qToString (QObj fs) \<noteq> None \<longleftrightarrow> qToString (QObj fs) = Some ''[object Object]''"
    by simp
  have arr: "qToString (QArr vs) = None \<longleftrightarrow> (\<exists>v \<in> set vs. qToString v = None)"
    by (rule qToString_array_throws)
  have e: "schoolsJoinKind None = Inr Inner"
      "schoolsJoinKind (Some (QStr ''0'')) = Inr Inner"
      "schoolsJoinKind (Some (QStr ''no'')) = Inr Inner"
      "schoolsJoinKind (Some (QStr ''fals'')) = Inr Inner"
      "schoolsJoinKind (Some (QStr ''false '')) = Inr Inner"
      "schoolsJoinKind (Some (QStr [])) = Inr Inner"
      "schoolsJoinKind (Some (QStr ''true'')) = Inr Inner"
      "schoolsJoinKind (Some (QObj [(''a'', QStr ''false'')])) = Inr Inner"
      "schoolsJoinKind (Some (QStr ''false'')) = Inr Outer"
      "schoolsJoinKind (Some (QStr ''FALSE'')) = Inr Outer"
      "schoolsJoinKind (Some (QArr [QStr ''False''])) = Inr Outer"
      "schoolsJoinKind (Some (QObj [(''toString'', QStr ''x'')])) = Inl toString_TypeError"
      "schoolsJoinKind (Some (QArr [QStr ''false'', QObj [(''toString'', QStr ''x'')]])) = Inl toString_TypeError"
    by code_simp+
  show ?thesis
    using outer inner throws route str obj1 obj2 arr e by (intro conjI) assumption+
qed

text \<open>
  The amended C10 applied to the query value \<open>False\<close>: it selects the outer join.
\<close>

theorem schools_outer_witness:
  "schoolsJoinKind (Some (QStr ''False'')) = Inr Outer"
proof -
  have "toLowerCase ''False'' = ''false''" by code_simp
  then have "\<exists>v s. Some (QStr ''False'') = Some v \<and> qToString v = Some s \<and> toLowerCase s = ''false''"
    by simp
  then show ?thesis
    using schools_outer_iff_false[of "Some (QStr ''False'')"] by blast
qed

text \<open>
  Claim C10 as stated fails for the request \<open>?onlyMatched[toString]=x\<close>: the value is
  the object with the one key \<open>toString\<close>, its string is not \<open>false\<close>, yet the route does
  not take the inner join; it takes no join and answers with the error.
\<close>

theorem schools_inner_counterexample:
  "qToString (QObj [(''toString'', QStr ''x'')]) \<noteq> Some ''false'' \<and>
   schoolsJoinKind (Some (QObj [(''toString'', QStr ''x'')])) \<noteq> Inr Inner \<and>
   schoolsJoinKind (Some (QObj [(''toString'', QStr ''x'')])) \<noteq> Inr Outer \<and>
   schoolsJoinKind (Some (QObj [(''toString'', QStr ''x'')])) = Inl toString_TypeError"
proof -
  have "schoolsJoinKind (Some (QObj [(''toString'', QStr ''x'')])) = Inl toString_TypeError"
    by code_simp
  then show ?thesis by simp
qed

section \<open>Properties of the cached fetchers\<close>

lemma cache_get_set_same:
  "now' \<le> now + stdTTL_ms \<Longrightarrow> cache_get (cache_set c now k v) now' k = Some v"
  by (simp add: cache_get_def cache_set_def)

lemma getProfile_hit:
  "cache_get (cache s) now ''profile_full'' = Some d \<Longrightarrow>
   getProfile up now s = (Inr d, count_hit (count_request s))"
  by (simp add: getProfile_def Let_def count_request_def)

lemma getPerformanceFull_hit:
  "cache_get (cache s) now ''performance_full'' = Some d \<Longrightarrow>
   getPerformanceFull up now s = (Inr d, count_hit (count_request s))"
  by (simp add: getPerformanceFull_def Let_def count_request_def)

lemma getPerformanceFull_miss_stores:
  assumes "cache_get (cache s) now ''performance_full'' = None"
    and "getPerformanceFull up now s = (Inr d, s')"
  shows "cache s' = cache_set (cache s) now ''performance_full'' d \<and>
         cacheMisses (STATS s') = cacheMisses (STATS s) + 1 \<and>
         cacheHits (STATS s') = cacheHits (STATS s)"
  using assms
  by (auto simp: getPerformanceFull_def Let_def count_request_def count_miss_def getSheetValues_def values_or_empty_def
      split: sum.splits option.splits)

lemma getPerformanceFull_second_read_hits:
  assumes "cache_get (cache s) now ''performance_full'' = None"
    and "getPerformanceFull up now s = (Inr d, s')"
    and "now' \<le> now + stdTTL_ms"
  shows "getPerformanceFull up' now' s' = (Inr d, count_hit (count_request s'))"
proof -
  have "cache s' = cache_set (cache s) now ''performance_full'' d"
    using getPerformanceFull_miss_stores[OF assms(1,2)] by simp
  then have "cache_get (cache s') now' ''performance_full'' = Some d"
    using assms(3) by (simp add: cache_get_set_same)
  then show ?thesis by (rule getPerformanceFull_hit)
qed

lemma getProfile_miss_stores:
  assumes "cache_get (cache s) now ''profile_full'' = None"
    and "getProfile up now s = (Inr d, s')"
    and "values_get up PROFILE_RANGE = Inr (Some vs)" and "vs \<noteq> []"
  shows "cache s' = cache_set (cache s) now ''profile_full'' d \<and>
         cacheMisses (STATS s') = cacheMisses (STATS s) + 1 \<and>
         cacheHits (STATS s') = cacheHits (STATS s)"
  using assms
  by (auto simp: getProfile_def Let_def count_request_def count_miss_def getSheetValues_def values_or_empty_def
      split: sum.splits option.splits)

lemma getProfile_second_read_hits:
  assumes "cache_get (cache s) now ''profile_full'' = None"
    and "getProfile up now s = (Inr d, s')"
    and "values_get up PROFILE_RANGE = Inr (Some vs)" and "vs \<noteq> []"
    and "now' \<le> now + stdTTL_ms"
  shows "getProfile up' now' s' = (Inr d, count_hit (count_request s'))"
proof -
  have "cache s' = cache_set (cache s) now ''profile_full'' d"
    using getProfile_miss_stores[OF assms(1-4)] by simp
  then have "cache_get (cache s') now' ''profile_full'' = Some d"
    using assms(5) by (simp add: cache_get_set_same)
  then show ?thesis by (rule getProfile_hit)
qed

lemma count_hit_stats:
  "cacheHits (STATS (count_hit (count_request s))) = cacheHits (STATS s) + 1 \<and>
   cacheMisses (STATS (count_hit (count_request s))) = cacheMisses (STATS s) \<and>
   totalRequests (STATS (count_hit (count_request s))) = totalRequests (STATS s) + 1 \<and>
   apiCalls (STATS (count_hit (count_request s))) = apiCalls (STATS s) \<and>
   cache (count_hit (count_request s)) = cache s"
  by (simp add: count_hit_def count_request_def)

lemma getProfile_empty_first:
  "getProfile empty_sheet_upstream now initial_server =
     (Inr \<lparr>headers = [], rows = [], data = []\<rparr>,
      initial_server\<lparr>STATS := \<lparr>totalRequests = 1, cacheHits = 0, cacheMisses = 1, apiCalls = 1,
                                errors = 0, lastApiCall = Some now\<rparr>\<rparr>)"
  by (simp add: getProfile_def Let_def count_request_def count_miss_def getSheetValues_def
      getSheetsClient_def cache_get_def initial_server_def empty_sheet_upstream_def
      values_or_empty_def)

text \<open>
  Claim C8. A read of \<open>getProfile\<close> that misses the cache and finds the Profile range
  without data returns the empty dataset without storing it: the next read, one second
  later and so within the time to live, misses again and asks the upstream source
  again. After the two reads the hit count is 0 and the miss count is 2.
\<close>

theorem getProfile_empty_sheet_misses_twice:
  "fst (getProfile empty_sheet_upstream 1000 initial_server) = Inr \<lparr>headers = [], rows = [], data = []\<rparr> \<and>
   cache (snd (getProfile empty_sheet_upstream 1000 initial_server)) ''profile_full'' = None \<and>
   cacheMisses (STATS (snd (getProfile empty_sheet_upstream 1000 initial_server))) = 1 \<and>
   2000 \<le> 1000 + stdTTL_ms \<and>
   fst (getProfile empty_sheet_upstream 2000 (snd (getProfile empty_sheet_upstream 1000 initial_server)))
     = Inr \<lparr>headers = [], rows = [], data = []\<rparr> \<and>
   cacheHits (STATS (snd (getProfile empty_sheet_upstream 2000
       (snd (getProfile empty_sheet_upstream 1000 initial_server))))) = 0 \<and>
   cacheMisses (STATS (snd (getProfile empty_sheet_upstream 2000
       (snd (getProfile empty_sheet_upstream 1000 initial_server))))) = 2 \<and>
   apiCalls (STATS (snd (getProfile empty_sheet_upstream 2000
       (snd (getProfile empty_sheet_upstream 1000 initial_server))))) = 2"
proof -
  let ?s1 = "initial_server\<lparr>STATS := \<lparr>totalRequests = 1, cacheHits = 0, cacheMisses = 1, apiCalls = 1,
                                errors = 0, lastApiCall = Some 1000\<rparr>\<rparr>"
  have first: "getProfile empty_sheet_upstream 1000 initial_server =
                 (Inr \<lparr>headers = [], rows = [], data = []\<rparr>, ?s1)"
    by (rule getProfile_empty_first)
  have second: "getProfile empty_sheet_upstream 2000 ?s1 =
     (Inr \<lparr>headers = [], rows = [], data = []\<rparr>,
      initial_server\<lparr>STATS := \<lparr>totalRequests = 2, cacheHits = 0, cacheMisses = 2, apiCalls = 2,
                                errors = 0, lastApiCall = Some 2000\<rparr>\<rparr>)"
    by (simp add: getProfile_def Let_def count_request_def count_miss_def getSheetValues_def
        getSheetsClient_def cache_get_def initial_server_def empty_sheet_upstream_def
        values_or_empty_def)
  show ?thesis
    apply (simp only: first second fst_conv snd_conv)
    apply (simp add: initial_server_def stdTTL_ms_def)
    done
qed

section \<open>Properties of the snapshot: persistence and refresh\<close>

lemma tmp_differs: "SNAPSHOT_FILE @ ''.tmp'' \<noteq> SNAPSHOT_FILE"
proof
  assume "SNAPSHOT_FILE @ ''.tmp'' = SNAPSHOT_FILE"
  then have "length (SNAPSHOT_FILE @ ''.tmp'') = length SNAPSHOT_FILE" by simp
  then show False by simp
qed

lemma saveSnapshotToDisk_snapshot: "SNAPSHOT (snd (saveSnapshotToDisk f io s)) = SNAPSHOT s"
  by (simp add: saveSnapshotToDisk_def Let_def split: option.splits)

lemma saveSnapshotToDisk_stats: "STATS (snd (saveSnapshotToDisk f io s)) = STATS s"
  by (simp add: saveSnapshotToDisk_def Let_def split: option.splits)

lemma saveSnapshotToDisk_ok:
  "fst (saveSnapshotToDisk f io s) = Inr g \<longleftrightarrow> (write_error io = None \<and> rename_error io = None \<and> g = f)"
  by (auto simp: saveSnapshotToDisk_def Let_def split: option.splits)

lemma saveSnapshotToDisk_file:
  "write_error io = None \<Longrightarrow> rename_error io = None \<Longrightarrow>
   disk (snd (saveSnapshotToDisk f io s)) f = Some (Document (snapshotToSerializable s))"
  using tmp_differs[of f] by (simp add: saveSnapshotToDisk_def Let_def)

lemma saveSnapshotToDisk_failed_file:
  "fst (saveSnapshotToDisk f io s) = Inl e \<Longrightarrow> disk (snd (saveSnapshotToDisk f io s)) f = disk s f"
  using tmp_differs[of f] by (auto simp: saveSnapshotToDisk_def Let_def split: option.splits)

lemma or_null_object: "or_null (\<lambda>_. True) v = v"
  by (simp add: or_null_def split: option.splits)

lemma loadSnapshotFromDisk_document:
  assumes "disk s0 f = Some (Document j)" and "read_error io = None"
  shows "fst (loadSnapshotFromDisk f io s0) = Inr f"
    and "SNAPSHOT (snd (loadSnapshotFromDisk f io s0)) =
           (doc_snapshot j)\<lparr>lastReason := or_null (\<lambda>r. r \<noteq> []) (lastReason (doc_snapshot j))\<rparr>"
  using assms by (simp_all add: loadSnapshotFromDisk_def or_null_object)

lemma loadSnapshotFromDisk_failed:
  "fst (loadSnapshotFromDisk f io s0) = Inl e \<Longrightarrow> snd (loadSnapshotFromDisk f io s0) = s0"
  by (auto simp: loadSnapshotFromDisk_def split: option.splits file_content.splits)

lemma commitAndSave_snapshot:
  "SNAPSHOT (snd (commitAndSave f io now reason prof perf s)) =
     \<lparr>profile = Some prof, performance = Some perf, joinedMatched = Some (innerJoin prof perf),
      lastUpdated = Some now, lastReason = Some reason\<rparr>"
proof -
  let ?s1 = "s\<lparr>SNAPSHOT := \<lparr>profile = Some prof, performance = Some perf,
                              joinedMatched = Some (innerJoin prof perf),
                              lastUpdated = Some now, lastReason = Some reason\<rparr>\<rparr>"
  have "snd (commitAndSave f io now reason prof perf s) = snd (saveSnapshotToDisk f io ?s1)"
    by (simp add: commitAndSave_def Let_def split: prod.splits)
  then show ?thesis by (simp add: saveSnapshotToDisk_snapshot)
qed

lemma commitAndSave_snapshot_pair:
  "commitAndSave f io now reason prof perf s = (meta, s') \<Longrightarrow>
   SNAPSHOT s' =
     \<lparr>profile = Some prof, performance = Some perf, joinedMatched = Some (innerJoin prof perf),
      lastUpdated = Some now, lastReason = Some reason\<rparr>"
  using commitAndSave_snapshot[of f io now reason prof perf s] by simp

lemma commitAndSave_saveResult:
  "saveResult (fst (commitAndSave f io now reason prof perf s)) =
     fst (saveSnapshotToDisk f io
            (s\<lparr>SNAPSHOT := \<lparr>profile = Some prof, performance = Some perf,
                              joinedMatched = Some (innerJoin prof perf),
                              lastUpdated = Some now, lastReason = Some reason\<rparr>\<rparr>))"
  by (simp add: commitAndSave_def Let_def split: prod.splits)

lemma refreshAll_failure:
  assumes "isl (getSheetsClient up) \<or> isl (values_get up PROFILE_RANGE) \<or>
           isl (values_get up PERF_HEADERS_RANGE) \<or> isl (values_get up PERF_DATA_RANGE)"
  shows "isl (fst (refreshAll up f io now reason s)) \<and>
         SNAPSHOT (snd (refreshAll up f io now reason s)) = SNAPSHOT s \<and>
         disk (snd (refreshAll up f io now reason s)) = disk s"
  using assms
  by (auto simp: refreshAll_def getSheetValues_def Let_def split: sum.splits prod.splits)

lemma refreshAll_success:
  assumes "getSheetsClient up = Inr m"
    and "values_get up PROFILE_RANGE = Inr v1"
    and "values_get up PERF_HEADERS_RANGE = Inr v2"
    and "values_get up PERF_DATA_RANGE = Inr v3"
  shows "\<not> isl (fst (refreshAll up f io now reason s)) \<and>
         SNAPSHOT (snd (refreshAll up f io now reason s)) =
           \<lparr>profile = Some (profileDataset (values_or_empty v1)),
            performance = Some (perfDataset (values_or_empty v2) (values_or_empty v3)),
            joinedMatched = Some (innerJoin (profileDataset (values_or_empty v1))
                                            (perfDataset (values_or_empty v2) (values_or_empty v3))),
            lastUpdated = Some now,
            lastReason = Some reason\<rparr>"
  using assms
  by (auto simp: refreshAll_def getSheetValues_def Let_def split: prod.splits
      dest: commitAndSave_snapshot_pair)

text \<open>
  Claim C1. When the client cannot be obtained or any of the three range requests is
  rejected, \<open>refreshAll\<close> returns the error and leaves every field of the snapshot, and
  the disk, as they were. When all succeed, it returns its result and the snapshot
  consists of the Profile dataset, the Performance dataset and their inner join built
  from the fetched values, the instant of the refresh and the reason given, whatever
  the snapshot was before and whether or not the save succeeds.
\<close>

theorem refreshAll_all_or_nothing:
  "((isl (getSheetsClient up) \<or> isl (values_get up PROFILE_RANGE) \<or>
     isl (values_get up PERF_HEADERS_RANGE) \<or> isl (values_get up PERF_DATA_RANGE)) \<longrightarrow>
      isl (fst (refreshAll up f io now reason s)) \<and>
      SNAPSHOT (snd (refreshAll up f io now reason s)) = SNAPSHOT s \<and>
      disk (snd (refreshAll up f io now reason s)) = disk s) \<and>
   (\<not> (isl (getSheetsClient up) \<or> isl (values_get up PROFILE_RANGE) \<or>
        isl (values_get up PERF_HEADERS_RANGE) \<or> isl (values_get up PERF_DATA_RANGE)) \<longrightarrow>
      \<not> isl (fst (refreshAll up f io now reason s)) \<and>
      SNAPSHOT (snd (refreshAll up f io now reason s)) =
        \<lparr>profile = Some (profileDataset (values_or_empty (projr (values_get up PROFILE_RANGE)))),
         performance = Some (perfDataset (values_or_empty (projr (values_get up PERF_HEADERS_RANGE)))
                                         (values_or_empty (projr (values_get up PERF_DATA_RANGE)))),
         joinedMatched =
           Some (innerJoin (profileDataset (values_or_empty (projr (values_get up PROFILE_RANGE))))
                           (perfDataset (values_or_empty (projr (values_get up PERF_HEADERS_RANGE)))
                                        (values_or_empty (projr (values_get up PERF_DATA_RANGE))))),
         lastUpdated = Some now,
         lastReason = Some reason\<rparr>)"
proof (intro conjI impI)
  assume "isl (getSheetsClient up) \<or> isl (values_get up PROFILE_RANGE) \<or>
          isl (values_get up PERF_HEADERS_RANGE) \<or> isl (values_get up PERF_DATA_RANGE)"
  then have fail: "isl (fst (refreshAll up f io now reason s)) \<and>
         SNAPSHOT (snd (refreshAll up f io now reason s)) = SNAPSHOT s \<and>
         disk (snd (refreshAll up f io now reason s)) = disk s"
    by (rule refreshAll_failure)
  from fail show "isl (fst (refreshAll up f io now reason s))" by simp
  from fail show "SNAPSHOT (snd (refreshAll up f io now reason s)) = SNAPSHOT s" by simp
  from fail show "disk (snd (refreshAll up f io now reason s)) = disk s" by simp
next
  assume ok: "\<not> (isl (getSheetsClient up) \<or> isl (values_get up PROFILE_RANGE) \<or>
          isl (values_get up PERF_HEADERS_RANGE) \<or> isl (values_get up PERF_DATA_RANGE))"
  then obtain m v1 v2 v3 where got: "getSheetsClient up = Inr m"
      "values_get up PROFILE_RANGE = Inr v1" "values_get up PERF_HEADERS_RANGE = Inr v2"
      "values_get up PERF_DATA_RANGE = Inr v3"
    by (metis sum.collapse(2))
  note r = refreshAll_success[OF got, of f io now reason s]
  from r show "\<not> isl (fst (refreshAll up f io now reason s))" by simp
  from r got show "SNAPSHOT (snd (refreshAll up f io now reason s)) =
        \<lparr>profile = Some (profileDataset (values_or_empty (projr (values_get up PROFILE_RANGE)))),
         performance = Some (perfDataset (values_or_empty (projr (values_get up PERF_HEADERS_RANGE)))
                                         (values_or_empty (projr (values_get up PERF_DATA_RANGE)))),
         joinedMatched =
           Some (innerJoin (profileDataset (values_or_empty (projr (values_get up PROFILE_RANGE))))
                           (perfDataset (values_or_empty (projr (values_get up PERF_HEADERS_RANGE)))
                                        (values_or_empty (projr (values_get up PERF_DATA_RANGE))))),
         lastUpdated = Some now,
         lastReason = Some reason\<rparr>"
    by simp
qed

text \<open>
  C1 applied to an upstream source that rejects every request, where the snapshot stays
  as it was, and to one that answers every request, where the reason is recorded.
\<close>

theorem refreshAll_all_or_nothing_witness:
  "SNAPSHOT (snd (refreshAll failing_upstream ''snapshot.json'' ok_io 1000 ''manual'' initial_server))
     = SNAPSHOT initial_server \<and>
   lastReason (SNAPSHOT (snd (refreshAll empty_sheet_upstream ''snapshot.json'' ok_io 1000 ''manual''
                                initial_server)))
     = Some ''manual''"
proof -
  have bad: "isl (getSheetsClient failing_upstream) \<or> isl (values_get failing_upstream PROFILE_RANGE) \<or>
     isl (values_get failing_upstream PERF_HEADERS_RANGE) \<or> isl (values_get failing_upstream PERF_DATA_RANGE)"
    by (simp add: failing_upstream_def)
  have good: "\<not> (isl (getSheetsClient empty_sheet_upstream) \<or>
     isl (values_get empty_sheet_upstream PROFILE_RANGE) \<or>
     isl (values_get empty_sheet_upstream PERF_HEADERS_RANGE) \<or>
     isl (values_get empty_sheet_upstream PERF_DATA_RANGE))"
    by (simp add: empty_sheet_upstream_def getSheetsClient_def)
  have a: "SNAPSHOT (snd (refreshAll failing_upstream ''snapshot.json'' ok_io 1000 ''manual'' initial_server))
     = SNAPSHOT initial_server"
    using refreshAll_all_or_nothing[of failing_upstream "''snapshot.json''" ok_io 1000 "''manual''"
        initial_server] bad
    by blast
  have "SNAPSHOT (snd (refreshAll empty_sheet_upstream ''snapshot.json'' ok_io 1000 ''manual''
                                initial_server)) =
        \<lparr>profile = Some (profileDataset (values_or_empty (projr (values_get empty_sheet_upstream PROFILE_RANGE)))),
         performance = Some (perfDataset (values_or_empty (projr (values_get empty_sheet_upstream PERF_HEADERS_RANGE)))
                                         (values_or_empty (projr (values_get empty_sheet_upstream PERF_DATA_RANGE)))),
         joinedMatched =
           Some (innerJoin (profileDataset (values_or_empty (projr (values_get empty_sheet_upstream PROFILE_RANGE))))
                           (perfDataset (values_or_empty (projr (values_get empty_sheet_upstream PERF_HEADERS_RANGE)))
                                        (values_or_empty (projr (values_get empty_sheet_upstream PERF_DATA_RANGE))))),
         lastUpdated = Some 1000,
         lastReason = Some ''manual''\<rparr>"
    using refreshAll_all_or_nothing[of empty_sheet_upstream "''snapshot.json''" ok_io 1000 "''manual''"
        initial_server] good
    by blast
  then have b: "lastReason (SNAPSHOT (snd (refreshAll empty_sheet_upstream ''snapshot.json'' ok_io 1000
      ''manual'' initial_server))) = Some ''manual''"
    by simp
  from a b show ?thesis by simp
qed

lemma empty_sheet_upstream_answers:
  "getSheetsClient empty_sheet_upstream = Inr ApiKey"
  "values_get empty_sheet_upstream rng = Inr None"
  by (simp_all add: empty_sheet_upstream_def getSheetsClient_def)

lemma refresh_empty_sheet_reason:
  "lastReason (SNAPSHOT (snd (refreshAll empty_sheet_upstream f io now reason s))) = Some reason"
  using refreshAll_success[OF empty_sheet_upstream_answers(1) empty_sheet_upstream_answers(2)
      empty_sheet_upstream_answers(2) empty_sheet_upstream_answers(2), of f io now reason s]
  by simp

lemma ok_io_fields: "write_error ok_io = None" "rename_error ok_io = None" "read_error ok_io = None"
  by (simp_all add: ok_io_def)

lemma load_after_save:
  assumes "fst (saveSnapshotToDisk SNAPSHOT_FILE io s) = Inr SNAPSHOT_FILE"
    and "disk s0 = disk (snd (saveSnapshotToDisk SNAPSHOT_FILE io s))"
    and "read_error io' = None"
  shows "fst (loadSnapshotFromDisk SNAPSHOT_FILE io' s0) = Inr SNAPSHOT_FILE"
    and "SNAPSHOT (snd (loadSnapshotFromDisk SNAPSHOT_FILE io' s0)) =
           (SNAPSHOT s)\<lparr>lastReason := or_null (\<lambda>r. r \<noteq> []) (lastReason (SNAPSHOT s))\<rparr>"
    and "STATS (snd (loadSnapshotFromDisk SNAPSHOT_FILE io' s0)) = (STATS s)\<lparr>errors := errors (STATS s0)\<rparr>"
proof -
  from assms(1) have ok: "write_error io = None" "rename_error io = None"
    by (simp_all add: saveSnapshotToDisk_ok)
  have stored: "disk s0 SNAPSHOT_FILE = Some (Document (snapshotToSerializable s))"
    using assms(2) saveSnapshotToDisk_file[OF ok] by simp
  show "fst (loadSnapshotFromDisk SNAPSHOT_FILE io' s0) = Inr SNAPSHOT_FILE"
    using loadSnapshotFromDisk_document(1)[OF stored assms(3)] .
  show "SNAPSHOT (snd (loadSnapshotFromDisk SNAPSHOT_FILE io' s0)) =
      (SNAPSHOT s)\<lparr>lastReason := or_null (\<lambda>r. r \<noteq> []) (lastReason (SNAPSHOT s))\<rparr>"
    using loadSnapshotFromDisk_document(2)[OF stored assms(3)] by (simp add: snapshotToSerializable_def)
  show "STATS (snd (loadSnapshotFromDisk SNAPSHOT_FILE io' s0)) = (STATS s)\<lparr>errors := errors (STATS s0)\<rparr>"
    using stored assms(3)
    by (simp add: loadSnapshotFromDisk_def snapshotToSerializable_def assign_stats_def)
qed

lemma or_null_never_empty: "or_null (\<lambda>r. r \<noteq> []) v \<noteq> Some []"
  by (simp add: or_null_def split: option.splits)

lemma or_null_nonempty: "v \<noteq> Some [] \<Longrightarrow> or_null (\<lambda>r. r \<noteq> []) v = v"
  by (auto simp: or_null_def split: option.splits)

lemma loadSnapshotFromDisk_reason:
  "lastReason (SNAPSHOT s) \<noteq> Some [] \<Longrightarrow>
   lastReason (SNAPSHOT (snd (loadSnapshotFromDisk f io s))) \<noteq> Some []"
  by (simp add: loadSnapshotFromDisk_def or_null_never_empty split: option.splits file_content.splits)

lemma refreshAll_reason:
  "lastReason (SNAPSHOT (snd (refreshAll up f io now reason s))) = lastReason (SNAPSHOT s) \<or>
   lastReason (SNAPSHOT (snd (refreshAll up f io now reason s))) = Some reason"
proof (cases "isl (getSheetsClient up) \<or> isl (values_get up PROFILE_RANGE) \<or>
              isl (values_get up PERF_HEADERS_RANGE) \<or> isl (values_get up PERF_DATA_RANGE)")
  case True
  then show ?thesis using refreshAll_failure[of up f io now reason s] by simp
next
  case False
  then obtain m v1 v2 v3 where got: "getSheetsClient up = Inr m"
      "values_get up PROFILE_RANGE = Inr v1" "values_get up PERF_HEADERS_RANGE = Inr v2"
      "values_get up PERF_DATA_RANGE = Inr v3"
    by (metis sum.collapse(2))
  show ?thesis using refreshAll_success[OF got, of f io now reason s] by simp
qed

lemma getProfile_snapshot_keeps:
  "getProfile_snapshot up now s = (r, s') \<Longrightarrow>
   lastReason (SNAPSHOT s') = lastReason (SNAPSHOT s) \<and> lastUpdated (SNAPSHOT s') = lastUpdated (SNAPSHOT s)"
  by (auto simp: getProfile_snapshot_def Let_def count_request_def count_hit_def count_miss_def
      split: option.splits sum.splits prod.splits if_splits)

lemma getPerformanceFull_snapshot_keeps:
  "getPerformanceFull_snapshot up now s = (r, s') \<Longrightarrow>
   lastReason (SNAPSHOT s') = lastReason (SNAPSHOT s) \<and> lastUpdated (SNAPSHOT s') = lastUpdated (SNAPSHOT s)"
  by (auto simp: getPerformanceFull_snapshot_def Let_def count_request_def count_hit_def count_miss_def
      split: option.splits sum.splits prod.splits if_splits)

lemma getJoinedFull_snapshot_keeps:
  "getJoinedFull_snapshot up now s = (r, s') \<Longrightarrow>
   lastReason (SNAPSHOT s') = lastReason (SNAPSHOT s) \<and> lastUpdated (SNAPSHOT s') = lastUpdated (SNAPSHOT s)"
proof -
  assume run: "getJoinedFull_snapshot up now s = (r, s')"
  let ?s2 = "count_miss (count_request s)"
  obtain r1 s3 where p: "getProfile_snapshot up now ?s2 = (r1, s3)" by (cases "getProfile_snapshot up now ?s2")
  obtain r2 s4 where q: "getPerformanceFull_snapshot up now s3 = (r2, s4)"
    by (cases "getPerformanceFull_snapshot up now s3")
  have k: "lastReason (SNAPSHOT s4) = lastReason (SNAPSHOT s) \<and> lastUpdated (SNAPSHOT s4) = lastUpdated (SNAPSHOT s)"
    using getProfile_snapshot_keeps[OF p] getPerformanceFull_snapshot_keeps[OF q]
    by (simp add: count_miss_def count_request_def)
  show ?thesis
    using run p q k
    by (auto simp: getJoinedFull_snapshot_def Let_def count_request_def count_hit_def count_miss_def
        split: option.splits sum.splits)
qed

lemma reachable_reason: "reachable s \<Longrightarrow> lastReason (SNAPSHOT s) \<noteq> Some []"
proof (induction rule: reachable.induct)
  case (start d)
  show ?case by simp
next
  case (refresh_manual s up f io now)
  then show ?case using refreshAll_reason[of up f io now "''manual_endpoint''" s] by auto
next
  case (refresh_startup s up f io now)
  then show ?case using refreshAll_reason[of up f io now "''startup''" s] by auto
next
  case (save s f io)
  then show ?case by (simp add: saveSnapshotToDisk_snapshot)
next
  case (load s f io)
  then show ?case by (simp add: loadSnapshotFromDisk_reason)
next
  case (get_profile s up now)
  then show ?case
    using getProfile_snapshot_keeps[of up now s "fst (getProfile_snapshot up now s)"
        "snd (getProfile_snapshot up now s)"] by simp
next
  case (get_performance s up now)
  then show ?case
    using getPerformanceFull_snapshot_keeps[of up now s "fst (getPerformanceFull_snapshot up now s)"
        "snd (getPerformanceFull_snapshot up now s)"] by simp
next
  case (get_joined s up now)
  then show ?case
    using getJoinedFull_snapshot_keeps[of up now s "fst (getJoinedFull_snapshot up now s)"
        "snd (getJoinedFull_snapshot up now s)"] by simp
next
  case (failed_request s)
  then show ?case by (simp add: count_error_def)
next
  case (disk_changed s d)
  then show ?case by simp
qed

text \<open>
  Claim C9. For every state that the server reaches: when the write and the rename of
  the save succeed and the file can be read back, loading, into whatever state the
  memory is in, recovers a snapshot equal to the saved one, in each of its five fields.
  The document on the disk is taken to be read back as it was written. The five
  counters stored with the snapshot are restored too.
\<close>

theorem snapshot_roundtrip:
  assumes "reachable s"
    and "fst (saveSnapshotToDisk SNAPSHOT_FILE io s) = Inr SNAPSHOT_FILE"
    and "disk s0 = disk (snd (saveSnapshotToDisk SNAPSHOT_FILE io s))"
    and "read_error io' = None"
  shows "fst (loadSnapshotFromDisk SNAPSHOT_FILE io' s0) = Inr SNAPSHOT_FILE \<and>
         SNAPSHOT (snd (loadSnapshotFromDisk SNAPSHOT_FILE io' s0)) = SNAPSHOT s \<and>
         profile (SNAPSHOT (snd (loadSnapshotFromDisk SNAPSHOT_FILE io' s0))) = profile (SNAPSHOT s) \<and>
         performance (SNAPSHOT (snd (loadSnapshotFromDisk SNAPSHOT_FILE io' s0))) = performance (SNAPSHOT s) \<and>
         joinedMatched (SNAPSHOT (snd (loadSnapshotFromDisk SNAPSHOT_FILE io' s0))) = joinedMatched (SNAPSHOT s) \<and>
         lastUpdated (SNAPSHOT (snd (loadSnapshotFromDisk SNAPSHOT_FILE io' s0))) = lastUpdated (SNAPSHOT s) \<and>
         lastReason (SNAPSHOT (snd (loadSnapshotFromDisk SNAPSHOT_FILE io' s0))) = lastReason (SNAPSHOT s) \<and>
         STATS (snd (loadSnapshotFromDisk SNAPSHOT_FILE io' s0)) = (STATS s)\<lparr>errors := errors (STATS s0)\<rparr>"
proof -
  have "lastReason (SNAPSHOT s) \<noteq> Some []"
    using assms(1) by (rule reachable_reason)
  then have same: "or_null (\<lambda>r. r \<noteq> []) (lastReason (SNAPSHOT s)) = lastReason (SNAPSHOT s)"
    by (rule or_null_nonempty)
  have snap: "SNAPSHOT (snd (loadSnapshotFromDisk SNAPSHOT_FILE io' s0)) = SNAPSHOT s"
    using load_after_save(2)[OF assms(2,3,4)] same by simp
  show ?thesis
    using load_after_save(1)[OF assms(2,3,4)] load_after_save(3)[OF assms(2,3,4)] snap by simp
qed

lemma reachable_initial_server: "reachable initial_server"
  unfolding initial_server_def by (rule reachable.start)

text \<open>
  C9 applied to the state after the startup refresh: the snapshot is saved, the memory
  is cleared, and the load recovers the snapshot.
\<close>

theorem snapshot_roundtrip_witness:
  "SNAPSHOT (snd (loadSnapshotFromDisk ''snapshot.json'' ok_io
      ((snd (saveSnapshotToDisk ''snapshot.json'' ok_io startup_server))
         \<lparr>SNAPSHOT := SNAPSHOT initial_server\<rparr>)))
   = SNAPSHOT startup_server \<and>
   SNAPSHOT startup_server \<noteq> SNAPSHOT initial_server"
proof -
  let ?cleared = "(snd (saveSnapshotToDisk ''snapshot.json'' ok_io startup_server))
         \<lparr>SNAPSHOT := SNAPSHOT initial_server\<rparr>"
  have reach: "reachable startup_server"
    unfolding startup_server_def by (rule reachable.refresh_startup[OF reachable_initial_server])
  have saved: "fst (saveSnapshotToDisk ''snapshot.json'' ok_io startup_server) = Inr ''snapshot.json''"
    by (simp add: saveSnapshotToDisk_ok ok_io_fields)
  have same_disk: "disk ?cleared = disk (snd (saveSnapshotToDisk ''snapshot.json'' ok_io startup_server))"
    by simp
  have a: "SNAPSHOT (snd (loadSnapshotFromDisk ''snapshot.json'' ok_io ?cleared))
      = SNAPSHOT startup_server"
    using snapshot_roundtrip[OF reach saved same_disk ok_io_fields(3)] by blast
  have reason: "lastReason (SNAPSHOT startup_server) = Some ''startup''"
    unfolding startup_server_def by (rule refresh_empty_sheet_reason)
  have "lastReason (SNAPSHOT initial_server) = None"
    by (simp add: initial_server_def)
  with reason have b: "SNAPSHOT startup_server \<noteq> SNAPSHOT initial_server"
    by auto
  from a b show ?thesis by simp
qed

end
